theory Spec2Isabelle
  imports Complex_Main "HOL-Library.Signed_Division"
begin

section \<open>Numbers\<close>

text \<open>
  The analysis engine computes on JavaScript numbers: the finite numbers, modelled by
  the reals, the two infinities (\<^verbatim>\<open>-Infinity\<close> is the logarithm of zero, the level of an
  empty band and the maximum of no numbers) and \<^verbatim>\<open>NaN\<close> (zero divided by zero, a sum
  that read past an array, the difference of two equal infinities).
  Outside the compatibility scorer the rounding of an arithmetic result to a double (and
  to 32 bits when it is stored in a \<^verbatim>\<open>Float32Array\<close>) is left out. In the scorer, whose
  result is rounded to an integer, every arithmetic operation passes its exact result
  through a rounding function \<open>fl\<close>, a parameter of the model.
  Sample rates and FFT sizes are reals; the theorems carry \<open>0 < sampleRate\<close> where the
  source divides by the sample rate.
\<close>

datatype jsnum = NaN | NegInf | PosInf | Fin real

text \<open>\<^verbatim>\<open>v <= r\<close> and \<^verbatim>\<open>v < r\<close> for a finite right-hand side; a comparison with NaN is false.\<close>

fun js_le :: "jsnum \<Rightarrow> real \<Rightarrow> bool" where
  "js_le NaN r = False"
| "js_le NegInf r = True"
| "js_le PosInf r = False"
| "js_le (Fin x) r = (x \<le> r)"

fun js_lt :: "jsnum \<Rightarrow> real \<Rightarrow> bool" where
  "js_lt NaN r = False"
| "js_lt NegInf r = True"
| "js_lt PosInf r = False"
| "js_lt (Fin x) r = (x < r)"

text \<open>\<^verbatim>\<open>v + r\<close> for a finite \<open>r\<close>.\<close>

fun js_add :: "jsnum \<Rightarrow> real \<Rightarrow> jsnum" where
  "js_add NaN r = NaN"
| "js_add NegInf r = NegInf"
| "js_add PosInf r = PosInf"
| "js_add (Fin x) r = Fin (x + r)"

text \<open>\<^verbatim>\<open>Math.log10\<close>: minus infinity at zero, NaN below.\<close>

definition Math_log10 :: "real \<Rightarrow> jsnum" where
  "Math_log10 x = (if x < 0 then NaN else if x = 0 then NegInf else Fin (log 10 x))"

text \<open>\<^verbatim>\<open>c * v\<close> for a positive finite \<open>c\<close>.\<close>

fun js_scale :: "real \<Rightarrow> jsnum \<Rightarrow> jsnum" where
  "js_scale c NaN = NaN"
| "js_scale c NegInf = NegInf"
| "js_scale c PosInf = PosInf"
| "js_scale c (Fin x) = Fin (c * x)"

text \<open>\<^verbatim>\<open>Math.round\<close> rounds to the nearest integer, a half towards plus infinity.\<close>

definition Math_round :: "real \<Rightarrow> int" where
  "Math_round x = \<lfloor>x + 1 / 2\<rfloor>"

text \<open>\<^verbatim>\<open>Math.round\<close> on any number: NaN and the infinities are returned as they are.\<close>

fun js_round :: "jsnum \<Rightarrow> jsnum" where
  "js_round (Fin x) = Fin (real_of_int (Math_round x))"
| "js_round v = v"

text \<open>\<^verbatim>\<open>v > r\<close> for a finite right-hand side.\<close>

fun js_gt :: "jsnum \<Rightarrow> real \<Rightarrow> bool" where
  "js_gt NaN r = False"
| "js_gt NegInf r = False"
| "js_gt PosInf r = True"
| "js_gt (Fin x) r = (x > r)"

text \<open>\<^verbatim>\<open>Math.max\<close> and \<^verbatim>\<open>Math.min\<close> of two numbers: NaN when either is NaN.\<close>

fun Math_max :: "jsnum \<Rightarrow> jsnum \<Rightarrow> jsnum" where
  "Math_max NaN b = NaN"
| "Math_max a NaN = NaN"
| "Math_max PosInf b = PosInf"
| "Math_max a PosInf = PosInf"
| "Math_max NegInf b = b"
| "Math_max a NegInf = a"
| "Math_max (Fin x) (Fin y) = Fin (max x y)"

fun Math_min :: "jsnum \<Rightarrow> jsnum \<Rightarrow> jsnum" where
  "Math_min NaN b = NaN"
| "Math_min a NaN = NaN"
| "Math_min NegInf b = NegInf"
| "Math_min a NegInf = NegInf"
| "Math_min PosInf b = b"
| "Math_min a PosInf = a"
| "Math_min (Fin x) (Fin y) = Fin (min x y)"

text \<open>
  Rounded arithmetic. The exact result of an operation on two finite numbers is rounded by
  \<open>fl\<close>, which returns a finite number or, on overflow, an infinity; the results on
  NaN and on infinite operands are those of IEEE 754. Division is needed by a positive
  finite constant only.
\<close>

fun fl_add :: "(real \<Rightarrow> jsnum) \<Rightarrow> jsnum \<Rightarrow> jsnum \<Rightarrow> jsnum" where
  "fl_add fl NaN b = NaN"
| "fl_add fl a NaN = NaN"
| "fl_add fl PosInf NegInf = NaN"
| "fl_add fl NegInf PosInf = NaN"
| "fl_add fl PosInf b = PosInf"
| "fl_add fl a PosInf = PosInf"
| "fl_add fl NegInf b = NegInf"
| "fl_add fl a NegInf = NegInf"
| "fl_add fl (Fin x) (Fin y) = fl (x + y)"

fun fl_sub :: "(real \<Rightarrow> jsnum) \<Rightarrow> jsnum \<Rightarrow> jsnum \<Rightarrow> jsnum" where
  "fl_sub fl NaN b = NaN"
| "fl_sub fl a NaN = NaN"
| "fl_sub fl PosInf PosInf = NaN"
| "fl_sub fl NegInf NegInf = NaN"
| "fl_sub fl PosInf b = PosInf"
| "fl_sub fl a NegInf = PosInf"
| "fl_sub fl NegInf b = NegInf"
| "fl_sub fl a PosInf = NegInf"
| "fl_sub fl (Fin x) (Fin y) = fl (x - y)"

fun fl_mul :: "(real \<Rightarrow> jsnum) \<Rightarrow> jsnum \<Rightarrow> jsnum \<Rightarrow> jsnum" where
  "fl_mul fl NaN b = NaN"
| "fl_mul fl a NaN = NaN"
| "fl_mul fl PosInf PosInf = PosInf"
| "fl_mul fl PosInf NegInf = NegInf"
| "fl_mul fl NegInf PosInf = NegInf"
| "fl_mul fl NegInf NegInf = PosInf"
| "fl_mul fl PosInf (Fin y) = (if y > 0 then PosInf else if y < 0 then NegInf else NaN)"
| "fl_mul fl NegInf (Fin y) = (if y > 0 then NegInf else if y < 0 then PosInf else NaN)"
| "fl_mul fl (Fin x) PosInf = (if x > 0 then PosInf else if x < 0 then NegInf else NaN)"
| "fl_mul fl (Fin x) NegInf = (if x > 0 then NegInf else if x < 0 then PosInf else NaN)"
| "fl_mul fl (Fin x) (Fin y) = fl (x * y)"

text \<open>\<^verbatim>\<open>v / c\<close> for a positive finite constant \<open>c\<close>.\<close>

fun fl_div :: "(real \<Rightarrow> jsnum) \<Rightarrow> jsnum \<Rightarrow> real \<Rightarrow> jsnum" where
  "fl_div fl (Fin x) c = fl (x / c)"
| "fl_div fl v c = v"

datatype js_error = RangeError


section \<open>Energy centres and the spectral band mapper\<close>

datatype EnergyCentreKey = root_key | sacral | solarPlexus | heart | throat | thirdEye | crown

text \<open>
  The band table, in the order of the object literal (\<^verbatim>\<open>Object.entries\<close> iterates in
  that order). \<^verbatim>\<open>useFFT.ts\<close>, \<^verbatim>\<open>noiseFloor.ts\<close> and the compatibility scorer each hold
  a copy of the same literal.
\<close>

definition ENERGY_BANDS :: "(EnergyCentreKey \<times> real \<times> real) list" where
  "ENERGY_BANDS =
     [(root_key, 32, 128), (sacral, 128, 256), (solarPlexus, 256, 384), (heart, 384, 512),
      (throat, 512, 768), (thirdEye, 768, 1024), (crown, 1024, 4000)]"

definition CENTRE_ORDER :: "EnergyCentreKey list" where
  "CENTRE_ORDER = [root_key, sacral, solarPlexus, heart, throat, thirdEye, crown]"

definition bandLow :: "EnergyCentreKey \<Rightarrow> real" where
  "bandLow k = (case map_of ENERGY_BANDS k of Some (low, high) \<Rightarrow> low | None \<Rightarrow> 0)"

definition bandHigh :: "EnergyCentreKey \<Rightarrow> real" where
  "bandHigh k = (case map_of ENERGY_BANDS k of Some (low, high) \<Rightarrow> high | None \<Rightarrow> 0)"

text \<open>\<^verbatim>\<open>frequencyToCentre\<close>: the first band of the table with \<open>low \<le> hz < high\<close>, else crown from 1024 Hz up.\<close>

definition frequencyToCentre :: "real \<Rightarrow> EnergyCentreKey option" where
  "frequencyToCentre hz =
     (case find (\<lambda>(key, low, high). hz \<ge> low \<and> hz < high) ENERGY_BANDS of
        Some (key, low, high) \<Rightarrow> Some key
      | None \<Rightarrow> (if hz \<ge> 1024 then Some crown else None))"

definition binToFrequency :: "real \<Rightarrow> real \<Rightarrow> real \<Rightarrow> real" where
  "binToFrequency bin sampleRate fftSize = (bin * sampleRate) / fftSize"

definition frequencyToBin :: "real \<Rightarrow> real \<Rightarrow> real \<Rightarrow> int" where
  "frequencyToBin freq sampleRate fftSize = Math_round ((freq * fftSize) / sampleRate)"

text \<open>
  The bins visited by \<^verbatim>\<open>for (i = lowBin; i <= highBin && i < length; i++)\<close>:
  both ends of the range are included.
\<close>

definition binLoop :: "nat \<Rightarrow> int \<Rightarrow> int \<Rightarrow> int list" where
  "binLoop len lowBin highBin = [lowBin..min highBin (int len - 1)]"

definition bandBins :: "nat \<Rightarrow> real \<Rightarrow> real \<Rightarrow> real \<Rightarrow> real \<Rightarrow> int list" where
  "bandBins len lowFreq highFreq sampleRate fftSize =
     binLoop len (frequencyToBin lowFreq sampleRate fftSize)
                 (frequencyToBin highFreq sampleRate fftSize)"

text \<open>
  \<^verbatim>\<open>bandEnergy\<close>: the mean of the dB values over the visited bins, minus infinity when
  no bin is visited. A negative first bin reads \<^verbatim>\<open>undefined\<close>, which turns the sum into NaN.
\<close>

definition bandEnergy :: "real list \<Rightarrow> real \<Rightarrow> real \<Rightarrow> real \<Rightarrow> real \<Rightarrow> jsnum" where
  "bandEnergy frequencyData lowFreq highFreq sampleRate fftSize =
     (let bins = bandBins (length frequencyData) lowFreq highFreq sampleRate fftSize;
          sum = sum_list (map (\<lambda>i. frequencyData ! nat i) bins);
          count = length bins
      in if count > 0
         then (if hd bins < 0 then NaN else Fin (sum / real count))
         else NegInf)"

text \<open>The bins that \<^verbatim>\<open>useFFT\<close> averages for one energy centre.\<close>

definition centreBins :: "nat \<Rightarrow> EnergyCentreKey \<Rightarrow> real \<Rightarrow> real \<Rightarrow> int list" where
  "centreBins len k sampleRate fftSize = bandBins len (bandLow k) (bandHigh k) sampleRate fftSize"


section \<open>Noise floor estimator\<close>

datatype Rating = excellent | good | fair | poor

record NoiseFloorResult =
  averageDB :: jsnum
  peakDB :: jsnum
  estimatedDBA :: jsnum
  bandLevels :: "EnergyCentreKey \<rightharpoonup> jsnum"
  rating :: Rating

definition computeRMS :: "real list \<Rightarrow> jsnum" where
  "computeRMS buffer =
     (if buffer = [] then NaN
      else Fin (sqrt (sum_list (map (\<lambda>x. x * x) buffer) / real (length buffer))))"

text \<open>\<^verbatim>\<open>20 * Math.log10(Math.max(value, 1e-10))\<close>\<close>

fun linearToDB :: "jsnum \<Rightarrow> jsnum" where
  "linearToDB NaN = NaN"
| "linearToDB NegInf = Fin (20 * log 10 (1 / 10 ^ 10))"
| "linearToDB PosInf = PosInf"
| "linearToDB (Fin v) = Fin (20 * log 10 (max v (1 / 10 ^ 10)))"

text \<open>The level of one band over all snapshots, as the inner loops of \<^verbatim>\<open>analyseNoiseFloor\<close> compute it.\<close>

definition noiseBandLevel :: "real list list \<Rightarrow> real \<Rightarrow> real \<Rightarrow> real \<Rightarrow> real \<Rightarrow> jsnum" where
  "noiseBandLevel frequencySnapshots lowFreq highFreq sampleRate fftSize =
     (let lowBin = Math_round ((lowFreq * fftSize) / sampleRate);
          highBin = Math_round ((highFreq * fftSize) / sampleRate);
          bandSum = sum_list (map (\<lambda>snapshot.
                       sum_list (map (\<lambda>bin. snapshot ! nat bin) (binLoop (length snapshot) lowBin highBin)))
                     frequencySnapshots);
          count = sum_list (map (\<lambda>snapshot. length (binLoop (length snapshot) lowBin highBin))
                     frequencySnapshots)
      in if count > 0
         then (if lowBin < 0 then NaN else Fin (bandSum / real count))
         else NegInf)"

definition analyseNoiseFloor :: "real list \<Rightarrow> real list list \<Rightarrow> real \<Rightarrow> real \<Rightarrow> NoiseFloorResult" where
  "analyseNoiseFloor samples frequencySnapshots sampleRate fftSize =
     (let avgRMS = (if samples = [] then NaN
                    else Fin (foldl (\<lambda>a b. a + b) 0 samples / real (length samples)));
          peakRMS = (case samples of [] \<Rightarrow> NegInf | s # ss \<Rightarrow> Fin (foldl max s ss));
          avDB = linearToDB avgRMS;
          pkDB = linearToDB peakRMS;
          levels = (if frequencySnapshots \<noteq> []
                    then map_of (map (\<lambda>(name, lowFreq, highFreq).
                           (name, noiseBandLevel frequencySnapshots lowFreq highFreq sampleRate fftSize))
                         ENERGY_BANDS)
                    else Map.empty)
      in \<lparr>averageDB = avDB, peakDB = pkDB, estimatedDBA = js_add avDB 3,
          bandLevels = levels,
          rating = (if js_lt avDB (-50) then excellent
                    else if js_lt avDB (-40) then good
                    else if js_lt avDB (-30) then fair
                    else poor)\<rparr>)"


section \<open>Transient detector\<close>

record TransientEvent =
  sampleIndex :: nat
  timeSeconds :: real
  peakAmplitude :: real
  energyRatio :: real

record TransientDetectorConfig =
  thresholdDB :: real
  minAmplitude :: real
  minIntervalSeconds :: real
  windowSize :: nat

definition DEFAULT_CONFIG :: TransientDetectorConfig where
  "DEFAULT_CONFIG = \<lparr>thresholdDB = 6, minAmplitude = 1 / 10, minIntervalSeconds = 3 / 10,
                       windowSize = 512\<rparr>"

text \<open>The samples of window \<open>w\<close>: \<^verbatim>\<open>buffer[w * windowSize + i]\<close> for \<open>i < windowSize\<close>.\<close>

definition window :: "real list \<Rightarrow> nat \<Rightarrow> nat \<Rightarrow> real list" where
  "window buffer wsize w = map (\<lambda>i. buffer ! (w * wsize + i)) [0..<wsize]"

text \<open>The first loop: the mean squared sample of every whole window.\<close>

definition windowEnergies :: "real list \<Rightarrow> nat \<Rightarrow> real list" where
  "windowEnergies buffer wsize =
     map (\<lambda>w. sum_list (map (\<lambda>x. x * x) (window buffer wsize w)) / real wsize)
         [0..<length buffer div wsize]"

text \<open>\<^verbatim>\<open>let peak = 0; ... if (abs > peak) peak = abs\<close>\<close>

definition windowPeak :: "real list \<Rightarrow> nat \<Rightarrow> nat \<Rightarrow> real" where
  "windowPeak buffer wsize w =
     foldl (\<lambda>peak x. if \<bar>x\<bar> > peak then \<bar>x\<bar> else peak) 0 (window buffer wsize w)"

text \<open>The background estimate and the energy ratio of window \<open>w\<close>.\<close>

definition bgEnergy :: "real list \<Rightarrow> nat \<Rightarrow> nat \<Rightarrow> real" where
  "bgEnergy energies avgWindowSize w =
     sum_list (map (\<lambda>j. energies ! j) [w - avgWindowSize..<w]) / real avgWindowSize"

definition windowRatio :: "real list \<Rightarrow> nat \<Rightarrow> nat \<Rightarrow> real" where
  "windowRatio energies avgWindowSize w =
     (let bg = bgEnergy energies avgWindowSize w
      in if bg > 0 then energies ! w / bg else 0)"

text \<open>
  The state of the second loop: the events pushed so far and \<^verbatim>\<open>lastDetectedSample\<close>.
  One iteration, for window \<open>w\<close>:
\<close>

definition detectStep ::
  "real list \<Rightarrow> real \<Rightarrow> TransientDetectorConfig \<Rightarrow> TransientEvent list \<times> int \<Rightarrow> nat
     \<Rightarrow> TransientEvent list \<times> int" where
  "detectStep buffer sampleRate config st w =
     (let events = fst st; lastDetectedSample = snd st;
          wsize = windowSize config;
          minIntervalSamples = \<lfloor>minIntervalSeconds config * sampleRate\<rfloor>;
          energies = windowEnergies buffer wsize;
          avgWindowSize = min 20 (length buffer div wsize);
          thresholdLinear = 10 powr (thresholdDB config / 10);
          ratio = windowRatio energies avgWindowSize w;
          sIndex = w * wsize
      in if ratio > thresholdLinear \<and> int sIndex - lastDetectedSample \<ge> minIntervalSamples
         then (let peak = windowPeak buffer wsize w
               in if peak < minAmplitude config then (events, lastDetectedSample)
                  else (events @ [\<lparr>sampleIndex = sIndex, timeSeconds = real sIndex / sampleRate,
                                   peakAmplitude = peak, energyRatio = ratio\<rparr>],
                        int sIndex))
         else (events, lastDetectedSample))"

text \<open>The loop state after the windows \<open>avgWindowSize, ..., n - 1\<close> have been scanned.\<close>

definition detectScan ::
  "real list \<Rightarrow> real \<Rightarrow> TransientDetectorConfig \<Rightarrow> nat \<Rightarrow> TransientEvent list \<times> int" where
  "detectScan buffer sampleRate config n =
     foldl (detectStep buffer sampleRate config)
       ([], - \<lfloor>minIntervalSeconds config * sampleRate\<rfloor>)
       [min 20 (length buffer div windowSize config)..<n]"

text \<open>
  \<^verbatim>\<open>detectTransients\<close>. With a window size of zero and a non-empty buffer the number of
  windows is infinite and allocating the energies throws a RangeError; with an empty
  buffer it is NaN, the array is empty and no loop runs.
\<close>

definition detectTransients ::
  "real list \<Rightarrow> real \<Rightarrow> TransientDetectorConfig \<Rightarrow> js_error + TransientEvent list" where
  "detectTransients buffer sampleRate config =
     (if windowSize config = 0
      then (if buffer = [] then Inr [] else Inl RangeError)
      else Inr (fst (detectScan buffer sampleRate config (length buffer div windowSize config))))"


section \<open>RT60 estimator\<close>

text \<open>
  The backward integration: \<^verbatim>\<open>energyCurve[length - 1] = squared[length - 1]\<close> and
  \<^verbatim>\<open>energyCurve[i] = energyCurve[i + 1] + squared[i]\<close>.
\<close>

fun backwardEnergy :: "real list \<Rightarrow> real list" where
  "backwardEnergy [] = []"
| "backwardEnergy [x] = [x * x]"
| "backwardEnergy (x # y # ys) =
     (let rest = backwardEnergy (y # ys) in (hd rest + x * x) # rest)"

text \<open>
  \<^verbatim>\<open>schroederIntegration\<close>. On an empty response \<^verbatim>\<open>energyCurve[0]\<close> is undefined, the
  test \<^verbatim>\<open>maxEnergy <= 0\<close> is false and the empty curve is returned.
\<close>

definition schroederIntegration :: "real list \<Rightarrow> jsnum list" where
  "schroederIntegration impulseResponse =
     (let energyCurve = backwardEnergy impulseResponse
      in if energyCurve = [] then []
         else (let maxEnergy = hd energyCurve
               in if maxEnergy \<le> 0 then map Fin energyCurve
                  else map (\<lambda>e. js_scale 10 (Math_log10 (e / maxEnergy))) energyCurve))"

text \<open>The first index from \<open>i\<close> on whose value satisfies \<open>P\<close>, or \<open>-1\<close>.\<close>

fun firstIndex :: "('a \<Rightarrow> bool) \<Rightarrow> 'a list \<Rightarrow> nat \<Rightarrow> int" where
  "firstIndex P [] i = -1"
| "firstIndex P (x # xs) i = (if P x then int i else firstIndex P xs (Suc i))"

definition estimateRT60 :: "jsnum list \<Rightarrow> real \<Rightarrow> real" where
  "estimateRT60 decayCurve sampleRate =
     (let t5 = firstIndex (\<lambda>v. js_le v (-5)) decayCurve 0;
          t25 = firstIndex (\<lambda>v. js_le v (-25)) decayCurve 0
      in if t5 < 0 \<or> t25 < 0 \<or> t25 \<le> t5
         then (let t10 = firstIndex (\<lambda>v. js_le v (-10)) decayCurve 0
               in if t10 \<le> 0 then 0 else (real_of_int t10 / sampleRate) * 6)
         else (real_of_int (t25 - t5) / sampleRate) * 3)"

definition computeRT60 :: "real list \<Rightarrow> real \<Rightarrow> real" where
  "computeRT60 impulseResponse sampleRate =
     estimateRT60 (schroederIntegration impulseResponse) sampleRate"


section \<open>Harmonic and overtone detector\<close>

record HarmonicPeak =
  frequency :: real
  amplitude :: real
  harmonicNumber :: int

text \<open>The entries \<^verbatim>\<open>{bin, frequency, amplitude}\<close> of the peak list.\<close>

record SpectralPeak =
  pk_bin :: nat
  pk_frequency :: real
  pk_amplitude :: real

record OvertoneResult =
  fundamental :: real
  harmonics :: "HarmonicPeak list"
  confidence :: real

text \<open>
  Entry \<open>i\<close> of the product array: the linear amplitude of bin \<open>i\<close>, multiplied for
  \<open>h = 2, ..., numHarmonics\<close> by that of bin \<open>i * h\<close> when it lies inside the spectrum.
\<close>

definition hpsValue :: "real list \<Rightarrow> nat \<Rightarrow> nat \<Rightarrow> real" where
  "hpsValue magnitudeSpectrum numHarmonics i =
     foldl (\<lambda>v h. if i * h < length magnitudeSpectrum
                   then v * 10 powr (magnitudeSpectrum ! (i * h) / 20) else v)
           (10 powr (magnitudeSpectrum ! i / 20))
           [2..<Suc numHarmonics]"

text \<open>
  \<^verbatim>\<open>harmonicProductSpectrum\<close>, for \<open>numHarmonics \<ge> 1\<close> (its one caller passes the default 5).
  The running maximum starts at minus infinity, written \<open>None\<close>; an index below zero
  reads \<^verbatim>\<open>undefined\<close>, which is greater than nothing.
\<close>

definition harmonicProductSpectrum :: "real list \<Rightarrow> real \<Rightarrow> real \<Rightarrow> nat \<Rightarrow> real" where
  "harmonicProductSpectrum magnitudeSpectrum sampleRate fftSize numHarmonics =
     (let halfLength = length magnitudeSpectrum div numHarmonics;
          minBin = \<lceil>(20 * fftSize) / sampleRate\<rceil>;
          best = foldl (\<lambda>(maxVal, maxBin) i.
                    if i \<ge> 0 \<and> (case maxVal of None \<Rightarrow> True
                                 | Some m \<Rightarrow> hpsValue magnitudeSpectrum numHarmonics (nat i) > m)
                    then (Some (hpsValue magnitudeSpectrum numHarmonics (nat i)), i)
                    else (maxVal, maxBin))
                  (None, minBin) [minBin..int halfLength - 1]
      in (real_of_int (snd best) * sampleRate) / fftSize)"

definition isLocalPeak :: "real list \<Rightarrow> real \<Rightarrow> nat \<Rightarrow> bool" where
  "isLocalPeak magnitudeSpectrum thresholdDb i \<longleftrightarrow>
     magnitudeSpectrum ! i > thresholdDb \<and>
     magnitudeSpectrum ! i > magnitudeSpectrum ! (i - 1) \<and>
     magnitudeSpectrum ! i > magnitudeSpectrum ! (i + 1) \<and>
     magnitudeSpectrum ! i > magnitudeSpectrum ! (i - 2) \<and>
     magnitudeSpectrum ! i > magnitudeSpectrum ! (i + 2)"

text \<open>
  \<^verbatim>\<open>findSpectralPeaks\<close>: the scan over the bins \<open>2, ..., length - 3\<close>, then the sort by
  descending amplitude (\<^verbatim>\<open>Array.prototype.sort\<close> is stable, as \<open>sort_key\<close> is).
\<close>

definition findSpectralPeaks ::
  "real list \<Rightarrow> real \<Rightarrow> real \<Rightarrow> real \<Rightarrow> int \<Rightarrow> SpectralPeak list" where
  "findSpectralPeaks magnitudeSpectrum sampleRate fftSize thresholdDb minDistance =
     sort_key (\<lambda>p. - pk_amplitude p)
       (foldl (\<lambda>peaks i.
           if isLocalPeak magnitudeSpectrum thresholdDb i \<and>
              (peaks = [] \<or> int i - int (pk_bin (last peaks)) \<ge> minDistance)
           then peaks @ [\<lparr>pk_bin = i, pk_frequency = (real i * sampleRate) / fftSize,
                          pk_amplitude = magnitudeSpectrum ! i\<rparr>]
           else peaks)
         [] [2..<length magnitudeSpectrum - 2])"

text \<open>
  The test of one peak in \<^verbatim>\<open>detectOvertones\<close>. With a fundamental of zero the ratio is
  infinite or NaN and the test \<^verbatim>\<open>Math.abs(ratio - nearestHarmonic) < 0.08\<close> fails.
\<close>

definition classifyPeak :: "real \<Rightarrow> SpectralPeak \<Rightarrow> HarmonicPeak option" where
  "classifyPeak fund peak =
     (if fund = 0 then None
      else (let ratio = pk_frequency peak / fund;
                nearestHarmonic = Math_round ratio
            in if nearestHarmonic \<ge> 1 \<and> \<bar>ratio - real_of_int nearestHarmonic\<bar> < 8 / 100
               then Some \<lparr>frequency = pk_frequency peak, amplitude = pk_amplitude peak,
                          harmonicNumber = nearestHarmonic\<rparr>
               else None))"

definition detectOvertones :: "real list \<Rightarrow> real \<Rightarrow> real \<Rightarrow> OvertoneResult" where
  "detectOvertones magnitudeSpectrum sampleRate fftSize =
     (let fund = harmonicProductSpectrum magnitudeSpectrum sampleRate fftSize 5;
          peaks = findSpectralPeaks magnitudeSpectrum sampleRate fftSize (-60) 5;
          found = List.map_filter (classifyPeak fund) (take 16 peaks);
          matchCount = length found
      in \<lparr>fundamental = fund, harmonics = found,
          confidence = (if length peaks > 0
                        then real matchCount / real (min (length peaks) 10) else 0)\<rparr>)"


section \<open>Compatibility scorer\<close>

definition DEFAULT_NOISE_DB :: real where
  "DEFAULT_NOISE_DB = -60"

text \<open>
  The band levels are the values \<^verbatim>\<open>bandEnergy\<close> and \<^verbatim>\<open>analyseNoiseFloor\<close> return,
  which can be minus infinity or NaN; the confidence is the finite quotient that
  \<^verbatim>\<open>detectOvertones\<close> returns.
\<close>

record ScoringInput =
  instrumentCentres :: "EnergyCentreKey \<Rightarrow> jsnum"
  noiseFloorBands :: "(EnergyCentreKey \<rightharpoonup> jsnum) option"
  overtoneConfidence :: real
  harmonics_in :: "HarmonicPeak list"

text \<open>\<^verbatim>\<open>noiseFloorBands?.[key] ?? DEFAULT_NOISE_DB\<close>\<close>

definition noiseLevel :: "(EnergyCentreKey \<rightharpoonup> jsnum) option \<Rightarrow> EnergyCentreKey \<Rightarrow> jsnum" where
  "noiseLevel bands key =
     (case bands of None \<Rightarrow> Fin DEFAULT_NOISE_DB
      | Some m \<Rightarrow> (case m key of None \<Rightarrow> Fin DEFAULT_NOISE_DB | Some v \<Rightarrow> v))"

text \<open>\<^verbatim>\<open>const headroom = instrumentLevel - noiseLevel\<close>\<close>

definition headroom :: "(real \<Rightarrow> jsnum) \<Rightarrow> ScoringInput \<Rightarrow> EnergyCentreKey \<Rightarrow> jsnum" where
  "headroom fl input key =
     fl_sub fl (instrumentCentres input key) (noiseLevel (noiseFloorBands input) key)"

text \<open>
  The first loop and \<^verbatim>\<open>avgHeadroom\<close>: the sum starts at 0 and adds
  \<^verbatim>\<open>Math.max(0, headroom)\<close> band by band, in the order of \<^verbatim>\<open>CENTRE_ORDER\<close>.
\<close>

definition avgHeadroom :: "(real \<Rightarrow> jsnum) \<Rightarrow> ScoringInput \<Rightarrow> jsnum" where
  "avgHeadroom fl input =
     (let headroomSum = foldl (\<lambda>s key. fl_add fl s (Math_max (Fin 0) (headroom fl input key)))
                          (Fin 0) CENTRE_ORDER;
          headroomCount = length CENTRE_ORDER
      in if headroomCount > 0 then fl_div fl headroomSum (real headroomCount) else Fin 0)"

text \<open>The second loop: the bands whose level is more than 6 dB above the noise level.\<close>

definition activatedCentres :: "(real \<Rightarrow> jsnum) \<Rightarrow> ScoringInput \<Rightarrow> nat" where
  "activatedCentres fl input =
     length (filter (\<lambda>key. js_gt (headroom fl input key) 6) CENTRE_ORDER)"

text \<open>
  \<^verbatim>\<open>computeCompatibilityScore\<close>. The literals 0.6 and 0.4 are the doubles \<open>fl (6 / 10)\<close>
  and \<open>fl (4 / 10)\<close>; the other constants are integers. The result is NaN or an integer.
\<close>

definition computeCompatibilityScore :: "(real \<Rightarrow> jsnum) \<Rightarrow> ScoringInput \<Rightarrow> jsnum" where
  "computeCompatibilityScore fl input =
     (let resonanceScore =
            Math_min (Fin 40) (fl_mul fl (fl_div fl (avgHeadroom fl input) 30) (Fin 40));
          richnessScore =
            fl_mul fl (fl_div fl (Fin (real (activatedCentres fl input)))
                         (real (length CENTRE_ORDER))) (Fin 35);
          harmonicBonus = Math_min (Fin 1) (fl_div fl (Fin (real (length (harmonics_in input)))) 6);
          clarityRaw = fl_add fl (fl_mul fl (Fin (overtoneConfidence input)) (fl (6 / 10)))
                                 (fl_mul fl harmonicBonus (fl (4 / 10)));
          clarityScore = fl_mul fl clarityRaw (Fin 25)
      in Math_max (Fin 0) (Math_min (Fin 100)
           (js_round (fl_add fl (fl_add fl resonanceScore richnessScore) clarityScore))))"

definition computeCentreCoverage ::
  "(real \<Rightarrow> jsnum) \<Rightarrow> (EnergyCentreKey \<Rightarrow> jsnum) \<Rightarrow> EnergyCentreKey \<Rightarrow> jsnum" where
  "computeCentreCoverage fl centres key =
     Math_max (Fin 0) (Math_min (Fin 1) (fl_div fl (fl_add fl (centres key) (Fin 80)) 80))"


section \<open>Frequency to note converter\<close>

definition NOTE_NAMES :: "string list" where
  "NOTE_NAMES = [''C'', ''C#'', ''D'', ''D#'', ''E'', ''F'', ''F#'', ''G'', ''G#'', ''A'', ''A#'', ''B'']"

text \<open>Decimal notation of an integer, as a template literal prints it.\<close>

fun showNat :: "nat \<Rightarrow> string" where
  "showNat n = (if n < 10 then [''0123456789'' ! n]
                else showNat (n div 10) @ [''0123456789'' ! (n mod 10)])"

declare showNat.simps [simp del]

definition showInt :: "int \<Rightarrow> string" where
  "showInt i = (if i < 0 then CHR ''-'' # showNat (nat (- i)) else showNat (nat i))"

record NoteInfo =
  name :: string
  noteName :: string
  octave :: int
  exactFrequency :: real
  cents :: int

text \<open>
  \<^verbatim>\<open>frequencyToNote\<close> for a positive frequency; at zero and below the source computes
  with minus infinity and NaN, which is \<open>None\<close> here. The remainder \<^verbatim>\<open>%\<close> takes the sign
  of the dividend, as \<open>smod\<close> does.
\<close>

definition frequencyToNote :: "real \<Rightarrow> NoteInfo option" where
  "frequencyToNote hz =
     (if hz \<le> 0 then None
      else (let semitones = 12 * log 2 (hz / 440);
                roundedSemitones = Math_round semitones;
                cts = Math_round ((semitones - real_of_int roundedSemitones) * 100);
                midi = 69 + roundedSemitones;
                noteIndex = ((midi smod 12) + 12) smod 12;
                oct = \<lfloor>real_of_int midi / 12\<rfloor> - 1;
                exact = 440 * 2 powr (real_of_int roundedSemitones / 12)
            in Some \<lparr>name = NOTE_NAMES ! nat noteIndex @ showInt oct,
                     noteName = NOTE_NAMES ! nat noteIndex, octave = oct,
                     exactFrequency = real_of_int (Math_round (exact * 100)) / 100,
                     cents = cts\<rparr>))"

definition noteToFrequency :: "string \<Rightarrow> int \<Rightarrow> real" where
  "noteToFrequency nname oct =
     (let index = firstIndex (\<lambda>n. n = nname) NOTE_NAMES 0
      in if index = -1 then 0
         else (let midi = (oct + 1) * 12 + index
               in 440 * 2 powr (real_of_int (midi - 69) / 12)))"

section \<open>Test signals and auxiliary notions\<close>

text \<open>Two events in order, at least \<open>m\<close> samples apart.\<close>

definition spaced :: "int \<Rightarrow> TransientEvent \<Rightarrow> TransientEvent \<Rightarrow> bool" where
  "spaced m e e' \<longleftrightarrow>
     sampleIndex e < sampleIndex e' \<and> m \<le> int (sampleIndex e') - int (sampleIndex e)"

text \<open>A steady level \<open>x\<close> over twenty windows, then one window at level \<open>y\<close>.\<close>

definition clapBuffer :: "nat \<Rightarrow> real \<Rightarrow> real \<Rightarrow> real list" where
  "clapBuffer ws x y = replicate (20 * ws) x @ replicate ws y"

text \<open>
  A configuration with windows of one sample and a minimum interval of 0.1 ms, which is
  4.41 samples at 44.1 kHz.
\<close>

definition tightConfig :: TransientDetectorConfig where
  "tightConfig = \<lparr>thresholdDB = 6, minAmplitude = 1 / 10, minIntervalSeconds = 1 / 10000,
                    windowSize = 1\<rparr>"


text \<open>Twenty quiet samples, a spike below the amplitude gate, then a loud sample.\<close>

definition quietThenLoud :: "real list" where
  "quietThenLoud = replicate 20 (1 / 1000) @ [1 / 20, 1]"






text \<open>An input whose root band is silent in the recording and in the noise floor.\<close>

definition silentInput :: ScoringInput where
  "silentInput = \<lparr>instrumentCentres = (\<lambda>k. if k = root_key then NegInf else Fin (-50)),
                    noiseFloorBands = Some (\<lambda>k. Some (if k = root_key then NegInf else Fin (-60))),
                    overtoneConfidence = 1 / 2, harmonics_in = []\<rparr>"

text \<open>
  A spectrum of 128 bins (FFT size 256): 0 dB at the bins 5, 10, ..., 55, which are a
  fundamental and its harmonics 2 to 11, and -100 dB everywhere else.
\<close>

definition harmonicSpectrum :: "real list" where
  "harmonicSpectrum = map (\<lambda>i. if i mod 5 = 0 \<and> 5 \<le> i \<and> i \<le> 55 then 0 else -100) [0..<128]"


section \<open>Properties of the noise floor estimator\<close>

lemma decibel_of_power:
  assumes "-10 \<le> x"
  shows "20 * log 10 (max (10 powr x) (1 / 10 ^ 10)) = 20 * x"
proof -
  have c: "(1::real) / 10 ^ 10 = 10 powr (-10)"
    by (simp add: powr_minus_divide flip: powr_numeral)
  have "(10::real) powr (-10) \<le> 10 powr x"
    using assms by (simp only: powr_le_cancel_iff)
  then have "max (10 powr x) ((1::real) / 10 ^ 10) = 10 powr x"
    unfolding c by (rule max_absorb1)
  then show ?thesis by simp
qed

lemma reduce_sum: "foldl (\<lambda>a b. a + b) z xs = z + sum_list (xs::real list)"
  by (induction xs arbitrary: z) simp_all

text \<open>
  Claim C9. For a non-empty list of RMS samples the average level is the finite number
  \<open>20 * log 10 (max m (1 / 10 ^ 10))\<close>, where \<open>m\<close> is the mean of the samples, and the
  rating depends on it alone: excellent below -50 dB, good from -50 dB to below -40 dB,
  fair from -40 dB to below -30 dB, poor from -30 dB up. In particular samples whose mean
  is at -55 dB are rated excellent.
\<close>

theorem analyseNoiseFloor_rating:
  assumes "samples \<noteq> []"
  shows "\<exists>a. a = 20 * log 10 (max (sum_list samples / real (length samples)) (1 / 10 ^ 10)) \<and>
           averageDB (analyseNoiseFloor samples frequencySnapshots sampleRate fftSize) = Fin a \<and>
           (rating (analyseNoiseFloor samples frequencySnapshots sampleRate fftSize) = excellent
              \<longleftrightarrow> a < -50) \<and>
           (rating (analyseNoiseFloor samples frequencySnapshots sampleRate fftSize) = good
              \<longleftrightarrow> -50 \<le> a \<and> a < -40) \<and>
           (rating (analyseNoiseFloor samples frequencySnapshots sampleRate fftSize) = fair
              \<longleftrightarrow> -40 \<le> a \<and> a < -30) \<and>
           (rating (analyseNoiseFloor samples frequencySnapshots sampleRate fftSize) = poor
              \<longleftrightarrow> -30 \<le> a) \<and>
           (a = -55 \<longrightarrow>
              rating (analyseNoiseFloor samples frequencySnapshots sampleRate fftSize) = excellent)"
  using assms by (simp add: analyseNoiseFloor_def Let_def reduce_sum)

text \<open>
  Two samples with the mean \<open>10 powr (-11 / 4)\<close>, which is -55 dB: rated excellent. The
  first sample alone is at about -49 dB.
\<close>

theorem analyseNoiseFloor_rating_witness:
  "[2 * 10 powr (-11 / 4), 0] \<noteq> ([]::real list) \<and>
   sum_list [2 * 10 powr (-11 / 4), 0] / real (length [2 * 10 powr (-11 / 4), 0 :: real]) =
     10 powr (-11 / 4) \<and>
   20 * log 10 (max (10 powr (-11 / 4)) (1 / 10 ^ 10)) = (-55::real) \<and>
   averageDB (analyseNoiseFloor [2 * 10 powr (-11 / 4), 0] [] 44100 8192) = Fin (-55) \<and>
   rating (analyseNoiseFloor [2 * 10 powr (-11 / 4), 0] [] 44100 8192) = excellent"
proof -
  have ne: "[2 * 10 powr (-11 / 4), 0] \<noteq> ([]::real list)" by simp
  have mean: "sum_list [2 * 10 powr (-11 / 4), 0] / real (length [2 * 10 powr (-11 / 4), 0 :: real]) =
     10 powr (-11 / 4)"
    by simp
  have db: "20 * log 10 (max (10 powr (-11 / 4)) (1 / 10 ^ 10)) = (-55::real)"
    using decibel_of_power [of "-11 / 4"] by simp
  from analyseNoiseFloor_rating [OF ne, of "[]" 44100 8192]
  have "averageDB (analyseNoiseFloor [2 * 10 powr (-11 / 4), 0] [] 44100 8192) = Fin (-55) \<and>
     rating (analyseNoiseFloor [2 * 10 powr (-11 / 4), 0] [] 44100 8192) = excellent"
    unfolding mean db by auto
  with ne mean db show ?thesis by (intro conjI) simp_all
qed



section \<open>Properties of the transient detector\<close>

subsection \<open>The scanning loop\<close>

lemma detectScan_start:
  "n \<le> min 20 (length buffer div windowSize config) \<Longrightarrow>
   detectScan buffer sampleRate config n = ([], - \<lfloor>minIntervalSeconds config * sampleRate\<rfloor>)"
  by (simp add: detectScan_def)

lemma detectScan_Suc:
  "min 20 (length buffer div windowSize config) \<le> n \<Longrightarrow>
   detectScan buffer sampleRate config (Suc n) =
   detectStep buffer sampleRate config (detectScan buffer sampleRate config n) n"
  by (simp add: detectScan_def)

text \<open>An iteration either leaves the state as it is or pushes one event at the window start.\<close>

lemma detectStep_cases:
  "detectStep buffer sampleRate config st w = st \<or>
   (\<lfloor>minIntervalSeconds config * sampleRate\<rfloor> \<le> int (w * windowSize config) - snd st \<and>
    (\<exists>e. sampleIndex e = w * windowSize config \<and>
         timeSeconds e = real (w * windowSize config) / sampleRate \<and>
         detectStep buffer sampleRate config st w = (fst st @ [e], int (w * windowSize config))))"
  by (cases st) (simp add: detectStep_def Let_def)

lemma detectScan_invariant:
  assumes ws: "0 < windowSize config"
  shows "(\<forall>e \<in> set (fst (detectScan buffer sampleRate config n)).
            (\<exists>w. min 20 (length buffer div windowSize config) \<le> w \<and> w < n \<and>
                 sampleIndex e = w * windowSize config) \<and>
            timeSeconds e = real (sampleIndex e) / sampleRate \<and>
            int (sampleIndex e) \<le> snd (detectScan buffer sampleRate config n)) \<and>
         snd (detectScan buffer sampleRate config n) =
           (if fst (detectScan buffer sampleRate config n) = []
            then - \<lfloor>minIntervalSeconds config * sampleRate\<rfloor>
            else int (sampleIndex (last (fst (detectScan buffer sampleRate config n))))) \<and>
         sorted_wrt (spaced \<lfloor>minIntervalSeconds config * sampleRate\<rfloor>)
           (fst (detectScan buffer sampleRate config n))"
  (is "?I n")
proof (induction n)
  case 0
  show ?case by (simp add: detectScan_start)
next
  case (Suc n)
  let ?a = "min 20 (length buffer div windowSize config)"
  let ?m = "\<lfloor>minIntervalSeconds config * sampleRate\<rfloor>"
  let ?S = "detectScan buffer sampleRate config n"
  show ?case
  proof (cases "Suc n \<le> ?a")
    case True
    then show ?thesis by (simp add: detectScan_start)
  next
    case False
    then have a_le: "?a \<le> n"
      by linarith
    then have step: "detectScan buffer sampleRate config (Suc n) =
        detectStep buffer sampleRate config ?S n"
      by (rule detectScan_Suc)
    from detectStep_cases [of buffer sampleRate config ?S n]
    show ?thesis
    proof
      assume same: "detectStep buffer sampleRate config ?S n = ?S"
      have "\<And>w. w < n \<Longrightarrow> w < Suc n" by simp
      with Suc.IH show ?thesis
        unfolding step same by (metis less_Suc_eq)
    next
      assume "?m \<le> int (n * windowSize config) - snd ?S \<and>
        (\<exists>e. sampleIndex e = n * windowSize config \<and>
         timeSeconds e = real (n * windowSize config) / sampleRate \<and>
         detectStep buffer sampleRate config ?S n = (fst ?S @ [e], int (n * windowSize config)))"
      then obtain e where gate: "?m \<le> int (n * windowSize config) - snd ?S"
        and e: "sampleIndex e = n * windowSize config"
          "timeSeconds e = real (n * windowSize config) / sampleRate"
        and new: "detectStep buffer sampleRate config ?S n = (fst ?S @ [e], int (n * windowSize config))"
        by blast
      have old: "\<forall>x \<in> set (fst ?S). sampleIndex x < n * windowSize config \<and>
                  int (sampleIndex x) \<le> snd ?S"
      proof
        fix x assume "x \<in> set (fst ?S)"
        with Suc.IH obtain w where "w < n" "sampleIndex x = w * windowSize config"
          and le: "int (sampleIndex x) \<le> snd ?S"
          by blast
        with ws show "sampleIndex x < n * windowSize config \<and> int (sampleIndex x) \<le> snd ?S"
          by simp
      qed
      have sp: "\<forall>x \<in> set (fst ?S). spaced ?m x e"
        using old gate e by (auto simp: spaced_def)
      have A: "\<forall>x \<in> set (fst ?S @ [e]).
            (\<exists>w. ?a \<le> w \<and> w < Suc n \<and> sampleIndex x = w * windowSize config) \<and>
            timeSeconds x = real (sampleIndex x) / sampleRate \<and>
            int (sampleIndex x) \<le> int (n * windowSize config)"
      proof
        fix x assume "x \<in> set (fst ?S @ [e])"
        then consider "x \<in> set (fst ?S)" | "x = e" by auto
        then show "(\<exists>w. ?a \<le> w \<and> w < Suc n \<and> sampleIndex x = w * windowSize config) \<and>
            timeSeconds x = real (sampleIndex x) / sampleRate \<and>
            int (sampleIndex x) \<le> int (n * windowSize config)"
        proof cases
          case 1
          with Suc.IH have "\<exists>w. ?a \<le> w \<and> w < n \<and> sampleIndex x = w * windowSize config"
            and "timeSeconds x = real (sampleIndex x) / sampleRate" by blast+
          moreover from old 1 have "sampleIndex x < n * windowSize config" by blast
          ultimately show ?thesis by (auto intro: less_SucI)
        next
          case 2
          with e a_le show ?thesis by auto
        qed
      qed
      have C: "sorted_wrt (spaced ?m) (fst ?S @ [e])"
        using Suc.IH sp by (simp add: sorted_wrt_append)
      show ?thesis
        unfolding step new using A C e by simp
    qed
  qed
qed


lemma detectTransients_Inr:
  assumes "detectTransients buffer sampleRate config = Inr evs" and "evs \<noteq> []"
  shows "0 < windowSize config \<and>
         evs = fst (detectScan buffer sampleRate config (length buffer div windowSize config))"
  using assms by (auto simp: detectTransients_def split: if_splits)

lemma detectStep_fire:
  assumes "windowRatio (windowEnergies buffer (windowSize config))
             (min 20 (length buffer div windowSize config)) w = r"
    and "10 powr (thresholdDB config / 10) < r"
    and "\<lfloor>minIntervalSeconds config * sampleRate\<rfloor> \<le> int (w * windowSize config) - l"
    and "windowPeak buffer (windowSize config) w = p"
    and "minAmplitude config \<le> p"
  shows "detectStep buffer sampleRate config (evs, l) w =
           (evs @ [\<lparr>sampleIndex = w * windowSize config,
                     timeSeconds = real (w * windowSize config) / sampleRate,
                     peakAmplitude = p, energyRatio = r\<rparr>], int (w * windowSize config))"
  using assms by (simp add: detectStep_def Let_def)


subsection \<open>Runs on the test signals\<close>

lemma thresholdLinear_bounds: "0 < (10::real) powr (6 / 10) \<and> (10::real) powr (6 / 10) < 10"
proof -
  have "(10::real) powr (6 / 10) < 10 powr 1"
    by (rule powr_less_mono) simp_all
  then show ?thesis by simp
qed

lemma tight_interval: "\<lfloor>minIntervalSeconds tightConfig * 44100\<rfloor> = 4"
proof -
  have "minIntervalSeconds tightConfig * 44100 = 441 / 100"
    by (simp add: tightConfig_def)
  then show ?thesis by linarith
qed

lemma tight_fields:
  "windowSize tightConfig = 1" "thresholdDB tightConfig = 6" "minAmplitude tightConfig = 1 / 10"
  by (simp_all add: tightConfig_def)

lemma tight_threshold:
  "0 < 10 powr (thresholdDB tightConfig / 10)" "10 powr (thresholdDB tightConfig / 10) < 10"
  using thresholdLinear_bounds by (simp_all add: tight_fields)

lemma tight_scan20:
  assumes "min 20 (length buffer div windowSize tightConfig) = 20"
  shows "detectScan buffer 44100 tightConfig 20 = ([], -4)"
  using detectScan_start [of 20 buffer tightConfig 44100]
  by (simp only: assms tight_interval order_refl)

lemma tight_fire:
  assumes avg: "min 20 (length buffer div windowSize tightConfig) = 20"
    and scan: "detectScan buffer 44100 tightConfig w = (evs, l)"
    and ratio: "windowRatio (windowEnergies buffer (windowSize tightConfig))
             (min 20 (length buffer div windowSize tightConfig)) w = r"
    and peak: "windowPeak buffer (windowSize tightConfig) w = p"
    and big: "10 \<le> r" "1 / 10 \<le> p" and gate: "l + 4 \<le> int w" and w: "20 \<le> w"
  shows "detectScan buffer 44100 tightConfig (Suc w) =
     (evs @ [\<lparr>sampleIndex = w, timeSeconds = real w / 44100, peakAmplitude = p,
               energyRatio = r\<rparr>], int w)"
proof -
  have "detectScan buffer 44100 tightConfig (Suc w) =
        detectStep buffer 44100 tightConfig (detectScan buffer 44100 tightConfig w) w"
    using w by (intro detectScan_Suc) (simp only: avg)
  also have "\<dots> = detectStep buffer 44100 tightConfig (evs, l) w"
    by (simp only: scan)
  also have "\<dots> = (evs @ [\<lparr>sampleIndex = w * windowSize tightConfig,
                     timeSeconds = real (w * windowSize tightConfig) / 44100,
                     peakAmplitude = p, energyRatio = r\<rparr>], int (w * windowSize tightConfig))"
  proof (rule detectStep_fire [OF ratio _ _ peak])
    show "10 powr (thresholdDB tightConfig / 10) < r"
      using tight_threshold(2) big(1) by linarith
    show "\<lfloor>minIntervalSeconds tightConfig * 44100\<rfloor> \<le> int (w * windowSize tightConfig) - l"
      using gate by (simp add: tight_interval tight_fields)
    show "minAmplitude tightConfig \<le> p"
      using big(2) by (simp add: tight_fields)
  qed
  finally show ?thesis
    by (simp add: tight_fields)
qed







lemma quietThenLoud_ratios:
  "windowRatio (windowEnergies quietThenLoud (windowSize tightConfig))
     (min 20 (length quietThenLoud div windowSize tightConfig)) 20 = 2500"
  "windowRatio (windowEnergies quietThenLoud (windowSize tightConfig))
     (min 20 (length quietThenLoud div windowSize tightConfig)) 21 = 20000000 / 2519"
  by code_simp+

lemma quietThenLoud_peaks:
  "windowPeak quietThenLoud (windowSize tightConfig) 20 = 1 / 20"
  "windowPeak quietThenLoud (windowSize tightConfig) 21 = 1"
  by code_simp+

lemma quietThenLoud_avg: "min 20 (length quietThenLoud div windowSize tightConfig) = 20"
  by (simp add: quietThenLoud_def tight_fields)

lemma clap_windows: "0 < ws \<Longrightarrow> length (clapBuffer ws x y) div ws = 21"
  by (simp add: clapBuffer_def)

lemma clap_window:
  assumes "w \<le> 20"
  shows "window (clapBuffer ws x y) ws w = replicate ws (if w < 20 then x else y)"
proof (rule nth_equalityI)
  show "length (window (clapBuffer ws x y) ws w) = length (replicate ws (if w < 20 then x else y))"
    by (simp add: window_def)
next
  fix i assume "i < length (window (clapBuffer ws x y) ws w)"
  then have i: "i < ws" by (simp add: window_def)
  show "window (clapBuffer ws x y) ws w ! i = replicate ws (if w < 20 then x else y) ! i"
  proof (cases "w < 20")
    case True
    then have "Suc w \<le> 20" by simp
    then have "Suc w * ws \<le> 20 * ws" by (rule mult_le_mono1)
    moreover have "w * ws + i < Suc w * ws" using i by simp
    ultimately have "w * ws + i < 20 * ws" by (rule less_le_trans [rotated])
    with i True show ?thesis
      by (simp add: window_def clapBuffer_def nth_append)
  next
    case False
    with assms have "w = 20" by simp
    with i show ?thesis
      by (simp add: window_def clapBuffer_def nth_append)
  qed
qed

lemma clap_energy:
  assumes "0 < ws" "w \<le> 20"
  shows "windowEnergies (clapBuffer ws x y) ws ! w = (if w < 20 then x * x else y * y)"
proof -
  from assms have "w < length (clapBuffer ws x y) div ws"
    by (simp add: clap_windows)
  then have "windowEnergies (clapBuffer ws x y) ws ! w =
      sum_list (map (\<lambda>x. x * x) (window (clapBuffer ws x y) ws w)) / real ws"
    by (simp add: windowEnergies_def)
  also have "\<dots> = (real ws * (if w < 20 then x * x else y * y)) / real ws"
    by (simp add: clap_window [OF assms(2)] sum_list_replicate)
  finally show ?thesis using assms(1) by simp
qed

lemma clap_ratio:
  assumes "0 < ws" "x \<noteq> 0"
  shows "windowRatio (windowEnergies (clapBuffer ws x y) ws)
           (min 20 (length (clapBuffer ws x y) div ws)) 20 = (y * y) / (x * x)"
proof -
  have "map (\<lambda>j. windowEnergies (clapBuffer ws x y) ws ! j) [0..<20] = map (\<lambda>j. x * x) [0..<20]"
    by (rule map_cong) (simp_all add: clap_energy [OF assms(1)])
  then have "sum_list (map (\<lambda>j. windowEnergies (clapBuffer ws x y) ws ! j) [0..<20]) = 20 * (x * x)"
    by (simp add: map_replicate_const sum_list_replicate)
  then have bg: "bgEnergy (windowEnergies (clapBuffer ws x y) ws) 20 20 = x * x"
    by (simp add: bgEnergy_def)
  from assms(2) have "0 < x * x"
    by (auto simp add: zero_less_mult_iff)
  with bg clap_energy [OF assms(1), of 20 x y] show ?thesis
    by (simp add: windowRatio_def Let_def clap_windows [OF assms(1)])
qed

lemma peak_replicate:
  "foldl (\<lambda>peak x. if \<bar>x\<bar> > peak then \<bar>x\<bar> else peak) p (replicate n (c::real)) =
     (if n = 0 then p else max p \<bar>c\<bar>)"
  by (induction n arbitrary: p) (auto simp: max_def)

lemma clap_peak:
  assumes "0 < ws"
  shows "windowPeak (clapBuffer ws x y) ws 20 = \<bar>y\<bar>"
  using assms by (simp add: windowPeak_def clap_window peak_replicate)

lemma clap_scan20:
  assumes "0 < windowSize config"
  shows "detectScan (clapBuffer (windowSize config) x y) sampleRate config 20 =
           ([], - \<lfloor>minIntervalSeconds config * sampleRate\<rfloor>)"
  by (rule detectScan_start) (simp add: clap_windows [OF assms])

lemma clap_scan21:
  assumes "0 < windowSize config"
  shows "detectScan (clapBuffer (windowSize config) x y) sampleRate config 21 =
         detectStep (clapBuffer (windowSize config) x y) sampleRate config
           ([], - \<lfloor>minIntervalSeconds config * sampleRate\<rfloor>) 20"
proof -
  have "detectScan (clapBuffer (windowSize config) x y) sampleRate config (Suc 20) =
        detectStep (clapBuffer (windowSize config) x y) sampleRate config
          (detectScan (clapBuffer (windowSize config) x y) sampleRate config 20) 20"
    by (rule detectScan_Suc) (simp add: clap_windows [OF assms])
  then show ?thesis
    by (simp add: clap_scan20 [OF assms])
qed

lemma clap_recorded:
  assumes ws: "0 < windowSize config" and x: "x \<noteq> 0"
    and loud: "10 powr (thresholdDB config / 10) < (y * y) / (x * x)"
    and amp: "minAmplitude config \<le> \<bar>y\<bar>"
  shows "detectTransients (clapBuffer (windowSize config) x y) sampleRate config =
     Inr [\<lparr>sampleIndex = 20 * windowSize config,
           timeSeconds = real (20 * windowSize config) / sampleRate,
           peakAmplitude = \<bar>y\<bar>, energyRatio = (y * y) / (x * x)\<rparr>]"
proof -
  have "detectStep (clapBuffer (windowSize config) x y) sampleRate config
           ([], - \<lfloor>minIntervalSeconds config * sampleRate\<rfloor>) 20 =
        ([] @ [\<lparr>sampleIndex = 20 * windowSize config,
           timeSeconds = real (20 * windowSize config) / sampleRate,
           peakAmplitude = \<bar>y\<bar>, energyRatio = (y * y) / (x * x)\<rparr>], int (20 * windowSize config))"
    by (rule detectStep_fire [OF clap_ratio [OF ws x] loud _ clap_peak [OF ws] amp]) simp
  with clap_scan21 [OF ws, of x y sampleRate] ws show ?thesis
    by (simp add: detectTransients_def clap_windows)
qed

lemma default_threshold:
  "10 powr (thresholdDB DEFAULT_CONFIG / 10) < 2500"
  using thresholdLinear_bounds by (simp add: DEFAULT_CONFIG_def)


subsection \<open>The claims\<close>

text \<open>
  Claim C10. Every reported event starts a window \<open>w\<close> with
  \<open>min 20 numWindows \<le> w < numWindows\<close>, so none lies in the first \<open>min 20 numWindows\<close>
  windows, and its sample index is a multiple of the window size. With the default window
  size of 512 and a recording of at least 10240 samples, no event lies before sample 10240.
\<close>

theorem detectTransients_skips_leading_windows:
  assumes "detectTransients buffer sampleRate config = Inr evs" and "e \<in> set evs"
  shows "(\<exists>w. min 20 (length buffer div windowSize config) \<le> w \<and>
              w < length buffer div windowSize config \<and>
              sampleIndex e = w * windowSize config) \<and>
         windowSize config dvd sampleIndex e \<and>
         (windowSize config = windowSize DEFAULT_CONFIG \<and> 20 * 512 \<le> length buffer
            \<longrightarrow> 10240 \<le> sampleIndex e)"
proof -
  from assms have ne: "evs \<noteq> []" by auto
  note run = detectTransients_Inr [OF assms(1) ne]
  from run assms(2)
    detectScan_invariant [of config buffer sampleRate "length buffer div windowSize config"]
  obtain w where w: "min 20 (length buffer div windowSize config) \<le> w"
      "w < length buffer div windowSize config" "sampleIndex e = w * windowSize config"
    by blast
  have ex: "\<exists>w. min 20 (length buffer div windowSize config) \<le> w \<and>
              w < length buffer div windowSize config \<and>
              sampleIndex e = w * windowSize config"
    using w by blast
  have dv: "windowSize config dvd sampleIndex e"
    using w(3) by simp
  have "10240 \<le> sampleIndex e"
    if "windowSize config = windowSize DEFAULT_CONFIG" "20 * 512 \<le> length buffer"
  proof -
    from that have "windowSize config = 512" by (simp add: DEFAULT_CONFIG_def)
    moreover from this that have "20 \<le> length buffer div windowSize config" by simp
    ultimately show ?thesis using w by simp
  qed
  with ex dv show ?thesis by blast
qed

text \<open>
  With the default configuration at 44.1 kHz, twenty windows at level 0.01 followed by one
  window at level 0.5 give one event, at sample 10240: the bound is reached.
\<close>

theorem detectTransients_skips_leading_windows_witness:
  "detectTransients (clapBuffer 512 (1 / 100) (1 / 2)) 44100 DEFAULT_CONFIG =
     Inr [\<lparr>sampleIndex = 10240, timeSeconds = 10240 / 44100, peakAmplitude = 1 / 2,
           energyRatio = 2500\<rparr>] \<and>
   length (clapBuffer 512 (1 / 100) (1 / 2)) = 10752 \<and>
   windowSize DEFAULT_CONFIG = 512 \<and>
   min 20 (10752 div 512) \<le> (20::nat) \<and> (20::nat) < 10752 div 512 \<and>
   (10240::nat) = 20 * 512 \<and> (512::nat) dvd 10240"
proof -
  have ws: "windowSize DEFAULT_CONFIG = 512" by (simp add: DEFAULT_CONFIG_def)
  have run: "detectTransients (clapBuffer 512 (1 / 100) (1 / 2)) 44100 DEFAULT_CONFIG =
     Inr [\<lparr>sampleIndex = 10240, timeSeconds = 10240 / 44100, peakAmplitude = 1 / 2,
           energyRatio = 2500\<rparr>]"
    using clap_recorded [of DEFAULT_CONFIG "1 / 100" "1 / 2" 44100] default_threshold
    by (simp add: ws) (simp add: DEFAULT_CONFIG_def)
  have len: "length (clapBuffer 512 (1 / 100) (1 / 2)) = 10752"
    by (simp add: clapBuffer_def)
  from detectTransients_skips_leading_windows [OF run, of
      "\<lparr>sampleIndex = 10240, timeSeconds = 10240 / 44100, peakAmplitude = 1 / 2, energyRatio = 2500\<rparr>"]
    run len ws
  show ?thesis by simp
qed





text \<open>
  Claim C8. When window \<open>w\<close> passes the energy-ratio test and the interval test but its
  peak is below \<open>minAmplitude\<close>, the loop state after the window is the state before it:
  no event is pushed and \<open>lastDetectedSample\<close> keeps its value, which is the sample index
  of the last recorded event (or its initial value when nothing has been recorded).
\<close>

theorem amplitude_gate_keeps_interval_gate:
  assumes "0 < windowSize config"
    and "min 20 (length buffer div windowSize config) \<le> w"
    and "windowRatio (windowEnergies buffer (windowSize config))
           (min 20 (length buffer div windowSize config)) w
         > 10 powr (thresholdDB config / 10)"
    and "\<lfloor>minIntervalSeconds config * sampleRate\<rfloor>
         \<le> int (w * windowSize config) - snd (detectScan buffer sampleRate config w)"
    and "windowPeak buffer (windowSize config) w < minAmplitude config"
  shows "detectScan buffer sampleRate config (Suc w) = detectScan buffer sampleRate config w \<and>
         snd (detectScan buffer sampleRate config (Suc w)) =
           (if fst (detectScan buffer sampleRate config (Suc w)) = []
            then - \<lfloor>minIntervalSeconds config * sampleRate\<rfloor>
            else int (sampleIndex (last (fst (detectScan buffer sampleRate config (Suc w))))))"
proof -
  have "detectStep buffer sampleRate config (detectScan buffer sampleRate config w) w =
        detectScan buffer sampleRate config w"
    using assms(3,4,5) by (simp add: detectStep_def Let_def)
  with detectScan_Suc [OF assms(2), of sampleRate]
  have "detectScan buffer sampleRate config (Suc w) = detectScan buffer sampleRate config w"
    by simp
  with detectScan_invariant [OF assms(1), of buffer sampleRate "Suc w"] show ?thesis
    by simp
qed


text \<open>
  On \<open>quietThenLoud\<close> the spike at sample 20 passes both tests and is suppressed; the loud
  sample at 21, one sample later, is recorded although the minimum interval is 4 samples.
\<close>

theorem amplitude_gate_keeps_interval_gate_witness:
  "0 < windowSize tightConfig \<and>
   min 20 (length quietThenLoud div windowSize tightConfig) = 20 \<and>
   windowRatio (windowEnergies quietThenLoud (windowSize tightConfig))
     (min 20 (length quietThenLoud div windowSize tightConfig)) 20 = 2500 \<and>
   10 powr (thresholdDB tightConfig / 10) < 2500 \<and>
   \<lfloor>minIntervalSeconds tightConfig * 44100\<rfloor> = 4 \<and>
   detectScan quietThenLoud 44100 tightConfig 20 = ([], -4) \<and>
   windowPeak quietThenLoud (windowSize tightConfig) 20 = 1 / 20 \<and>
   1 / 20 < minAmplitude tightConfig \<and>
   detectScan quietThenLoud 44100 tightConfig 21 = ([], -4) \<and>
   detectTransients quietThenLoud 44100 tightConfig =
     Inr [\<lparr>sampleIndex = 21, timeSeconds = 21 / 44100, peakAmplitude = 1,
           energyRatio = 20000000 / 2519\<rparr>]"
proof -
  note a = quietThenLoud_avg
  note s20 = tight_scan20 [OF a]
  have ws: "0 < windowSize tightConfig" by (simp add: tight_fields)
  have thr: "10 powr (thresholdDB tightConfig / 10) < 2500"
    using tight_threshold(2) by linarith
  have amp: "1 / 20 < minAmplitude tightConfig" by (simp add: tight_fields)
  have p2: "min 20 (length quietThenLoud div windowSize tightConfig) \<le> 20"
    by (simp only: a order_refl)
  have p3: "windowRatio (windowEnergies quietThenLoud (windowSize tightConfig))
       (min 20 (length quietThenLoud div windowSize tightConfig)) 20
      > 10 powr (thresholdDB tightConfig / 10)"
    by (simp only: quietThenLoud_ratios(1) thr)
  have p4: "\<lfloor>minIntervalSeconds tightConfig * 44100\<rfloor>
      \<le> int (20 * windowSize tightConfig) - snd (detectScan quietThenLoud 44100 tightConfig 20)"
    by (simp add: s20 tight_interval tight_fields)
  have p5: "windowPeak quietThenLoud (windowSize tightConfig) 20 < minAmplitude tightConfig"
    by (simp only: quietThenLoud_peaks(1) amp)
  from amplitude_gate_keeps_interval_gate [OF ws p2 p3 p4 p5]
  have "detectScan quietThenLoud 44100 tightConfig (Suc 20) =
        detectScan quietThenLoud 44100 tightConfig 20"
    by (rule conjunct1)
  then have s21: "detectScan quietThenLoud 44100 tightConfig 21 = ([], -4)"
    by (simp add: s20)
  from tight_fire [OF a s21 quietThenLoud_ratios(2) quietThenLoud_peaks(2)]
  have "detectScan quietThenLoud 44100 tightConfig 22 =
      ([\<lparr>sampleIndex = 21, timeSeconds = 21 / 44100, peakAmplitude = 1,
           energyRatio = 20000000 / 2519\<rparr>], 21)"
    by simp
  then have run: "detectTransients quietThenLoud 44100 tightConfig =
     Inr [\<lparr>sampleIndex = 21, timeSeconds = 21 / 44100, peakAmplitude = 1,
           energyRatio = 20000000 / 2519\<rparr>]"
    by (simp add: detectTransients_def tight_fields quietThenLoud_def)
  from ws a quietThenLoud_ratios(1) thr tight_interval s20 quietThenLoud_peaks(1) amp s21 run
  show ?thesis by (intro conjI)
qed

section \<open>Properties of the RT60 estimator\<close>

subsection \<open>The backward integration\<close>

lemma backwardEnergy_Cons:
  "backwardEnergy (x # xs) = sum_list (map (\<lambda>x. x * x) (x # xs)) # backwardEnergy xs"
proof (induction xs arbitrary: x)
  case Nil
  show ?case by simp
next
  case (Cons y ys)
  show ?case
    by (simp add: Cons.IH [of y] Let_def)
qed

lemma length_backwardEnergy: "length (backwardEnergy xs) = length xs"
  by (induction xs) (simp_all add: backwardEnergy_Cons del: backwardEnergy.simps(3))

lemma backwardEnergy_Nil_iff: "backwardEnergy xs = [] \<longleftrightarrow> xs = []"
  by (cases xs) (simp_all add: backwardEnergy_Cons del: backwardEnergy.simps(3))

lemma sum_squares_nonneg: "0 \<le> sum_list (map (\<lambda>x. x * x) (xs::real list))"
  by (induction xs) simp_all

lemma backwardEnergy_bounds:
  "e \<in> set (backwardEnergy xs) \<Longrightarrow> 0 \<le> e \<and> e \<le> sum_list (map (\<lambda>x. x * x) xs)"
proof (induction xs)
  case Nil
  then show ?case by simp
next
  case (Cons x xs)
  from Cons.prems consider "e = sum_list (map (\<lambda>x. x * x) (x # xs))" | "e \<in> set (backwardEnergy xs)"
    by (auto simp add: backwardEnergy_Cons simp del: backwardEnergy.simps(3))
  then show ?case
  proof cases
    case 1
    then show ?thesis using sum_squares_nonneg [of "x # xs"] by simp
  next
    case 2
    with Cons.IH have "0 \<le> e" "e \<le> sum_list (map (\<lambda>x. x * x) xs)" by simp_all
    moreover have "sum_list (map (\<lambda>x. x * x) (x # xs)) = x * x + sum_list (map (\<lambda>x. x * x) xs)"
      by simp
    ultimately show ?thesis using zero_le_square [of x] by linarith
  qed
qed

lemma backwardEnergy_decreasing:
  "sorted_wrt (\<lambda>a b. b \<le> a) (backwardEnergy xs)"
proof (induction xs)
  case Nil
  show ?case by simp
next
  case (Cons x xs)
  have "\<forall>e \<in> set (backwardEnergy xs). e \<le> sum_list (map (\<lambda>x. x * x) (x # xs))"
  proof
    fix e assume "e \<in> set (backwardEnergy xs)"
    then have "e \<le> sum_list (map (\<lambda>x. x * x) xs)" by (simp add: backwardEnergy_bounds)
    moreover have "sum_list (map (\<lambda>x. x * x) (x # xs)) = x * x + sum_list (map (\<lambda>x. x * x) xs)"
      by simp
    ultimately show "e \<le> sum_list (map (\<lambda>x. x * x) (x # xs))"
      using zero_le_square [of x] by linarith
  qed
  with Cons.IH show ?case
    by (simp add: backwardEnergy_Cons del: backwardEnergy.simps(3))
qed

lemma hd_backwardEnergy:
  "xs \<noteq> [] \<Longrightarrow> hd (backwardEnergy xs) = sum_list (map (\<lambda>x. x * x) xs)"
  by (cases xs) (simp_all add: backwardEnergy_Cons del: backwardEnergy.simps(3))

lemma decibel_nonpos:
  assumes "0 \<le> e" "e \<le> m" "0 < m"
  shows "js_le (js_scale 10 (Math_log10 (e / m))) 0"
proof (cases "e = 0")
  case True
  then show ?thesis by (simp add: Math_log10_def)
next
  case False
  with assms have pos: "0 < e / m" and le: "e / m \<le> 1" by simp_all
  then have "log 10 (e / m) \<le> 0" by simp
  with pos show ?thesis by (simp add: Math_log10_def)
qed

lemma schroederIntegration_silent:
  assumes "xs \<noteq> []" "hd (backwardEnergy xs) \<le> 0"
  shows "schroederIntegration xs = map Fin (backwardEnergy xs) \<and>
         schroederIntegration xs = replicate (length xs) (Fin 0)"
proof -
  from assms have curve: "schroederIntegration xs = map Fin (backwardEnergy xs)"
    by (simp add: schroederIntegration_def Let_def backwardEnergy_Nil_iff)
  have "e = 0" if "e \<in> set (backwardEnergy xs)" for e
    using backwardEnergy_bounds [OF that] hd_backwardEnergy [OF assms(1)] assms(2) by simp
  then have "map Fin (backwardEnergy xs) = map (\<lambda>e. Fin 0) (backwardEnergy xs)"
    by (intro map_cong) simp_all
  then have "map Fin (backwardEnergy xs) = replicate (length xs) (Fin 0)"
    by (simp add: map_replicate_const length_backwardEnergy)
  with curve show ?thesis by simp
qed

lemma backwardEnergy_zeros: "backwardEnergy (replicate k 0) = replicate k 0"
  by (induction k)
     (simp_all add: backwardEnergy_Cons sum_list_replicate del: backwardEnergy.simps(3))

lemma backwardEnergy_padded:
  "backwardEnergy (xs @ replicate k 0) = backwardEnergy xs @ replicate k 0"
  by (induction xs)
     (simp_all add: backwardEnergy_zeros backwardEnergy_Cons sum_list_replicate
        del: backwardEnergy.simps(3))

lemma firstIndex_append:
  "\<exists>x \<in> set xs. P x \<Longrightarrow> firstIndex P (xs @ ys) i = firstIndex P xs i"
  by (induction xs arbitrary: i) auto

lemma js_le_mono: "js_le v a \<Longrightarrow> a \<le> b \<Longrightarrow> js_le v b"
  by (cases v) simp_all

text \<open>A curve that reaches -25 dB comes from a response with positive total energy.\<close>

lemma crossing_positive:
  assumes "\<exists>v \<in> set (schroederIntegration xs). js_le v (-25)"
  shows "xs \<noteq> [] \<and> 0 < hd (backwardEnergy xs)"
proof -
  from assms have ne: "xs \<noteq> []"
    by (auto simp: schroederIntegration_def)
  have "0 < hd (backwardEnergy xs)"
  proof (rule ccontr)
    assume "\<not> 0 < hd (backwardEnergy xs)"
    then have "hd (backwardEnergy xs) \<le> 0" by simp
    with schroederIntegration_silent [OF ne]
    have "schroederIntegration xs = replicate (length xs) (Fin 0)" by blast
    with assms show False by auto
  qed
  with ne show ?thesis by simp
qed

lemma schroederIntegration_padded:
  assumes "xs \<noteq> []" "0 < hd (backwardEnergy xs)"
  shows "schroederIntegration (xs @ replicate k 0) = schroederIntegration xs @ replicate k NegInf"
proof -
  from assms(1) have ne: "backwardEnergy xs \<noteq> []"
    by (simp add: backwardEnergy_Nil_iff)
  then have "hd (backwardEnergy xs @ replicate k 0) = hd (backwardEnergy xs)"
    by simp
  with assms ne show ?thesis
    by (simp add: schroederIntegration_def Let_def backwardEnergy_padded Math_log10_def)
qed

lemma log10_seventeenth: "-2 \<le> log 10 (1 / 17) \<and> log 10 (1 / 17) \<le> (-1::real)"
proof -
  have "log 10 (1 / 100) \<le> log 10 (1 / 17 :: real)"
    by (subst log_le_cancel_iff) simp_all
  moreover have "log 10 (1 / 17 :: real) \<le> log 10 (1 / 10)"
    by (subst log_le_cancel_iff) simp_all
  moreover have "log 10 (1 / 100 :: real) = -2"
  proof -
    have "(1 / 100 :: real) = 10 powr (-2)"
      by (simp add: powr_minus_divide flip: powr_numeral)
    then show ?thesis by (simp only: log_powr_cancel)
  qed
  moreover have "log 10 (1 / 10 :: real) = -1"
    by (simp add: log_divide)
  ultimately show ?thesis by simp
qed

lemma decay_example:
  "schroederIntegration [1, 1 / 4, 0] = [Fin 0, Fin (10 * log 10 (1 / 17)), NegInf]"
  by (simp add: schroederIntegration_def Let_def Math_log10_def)

subsection \<open>The claims\<close>

lemma backwardEnergy_nth:
  "i < length xs \<Longrightarrow> backwardEnergy xs ! i = sum_list (map (\<lambda>x. x * x) (drop i xs))"
proof (induction xs arbitrary: i)
  case Nil
  then show ?case by simp
next
  case (Cons x xs)
  show ?case
  proof (cases i)
    case 0
    then show ?thesis
      by (simp add: backwardEnergy_Cons del: backwardEnergy.simps(3))
  next
    case (Suc j)
    with Cons.prems have "j < length xs" by simp
    with Cons.IH [of j] Suc show ?thesis
      by (simp add: backwardEnergy_Cons del: backwardEnergy.simps(3))
  qed
qed

lemma schroederIntegration_nth:
  assumes "i < length xs" and "0 < sum_list (map (\<lambda>x. x * x) xs)"
  shows "schroederIntegration xs ! i =
           (if sum_list (map (\<lambda>x. x * x) (drop i xs)) = 0 then NegInf
            else Fin (10 * log 10 (sum_list (map (\<lambda>x. x * x) (drop i xs)) /
                                   sum_list (map (\<lambda>x. x * x) xs))))"
proof -
  from assms(1) have ne: "xs \<noteq> []" by auto
  then have E: "backwardEnergy xs \<noteq> []" by (simp add: backwardEnergy_Nil_iff)
  note total = hd_backwardEnergy [OF ne]
  from assms(2) E have curve: "schroederIntegration xs =
      map (\<lambda>e. js_scale 10 (Math_log10 (e / hd (backwardEnergy xs)))) (backwardEnergy xs)"
    by (simp add: schroederIntegration_def Let_def total)
  have nn: "0 \<le> sum_list (map (\<lambda>x. x * x) (drop i xs))"
    by (rule sum_squares_nonneg)
  show ?thesis
  proof (cases "sum_list (map (\<lambda>x. x * x) (drop i xs)) = 0")
    case True
    with assms(1) show ?thesis
      unfolding curve by (simp add: length_backwardEnergy backwardEnergy_nth Math_log10_def)
  next
    case False
    with nn have "0 < sum_list (map (\<lambda>x. x * x) (drop i xs))" by simp
    with assms have "0 < sum_list (map (\<lambda>x. x * x) (drop i xs)) / sum_list (map (\<lambda>x. x * x) xs)"
      by simp
    with assms False show ?thesis
      unfolding curve
      by (simp add: length_backwardEnergy backwardEnergy_nth Math_log10_def total)
  qed
qed

text \<open>
  Claim C6. For a non-empty impulse response the curve has the length of the response, the
  backward-integrated energy at index \<open>i\<close> is the sum of the squares of the samples from
  \<open>i\<close> on (the total energy at index 0), and these energies never increase along the
  response. When the total energy is positive the value of the returned curve at index
  \<open>i\<close> is \<open>10 * log 10\<close> of the energy at \<open>i\<close> over the total energy, minus infinity
  where that energy is zero; it is 0 at index 0 and at most 0 everywhere. When the total
  energy is not positive the energies are returned unconverted, and all of them are zero.
\<close>

theorem schroederIntegration_curve:
  assumes "impulseResponse \<noteq> []"
  shows "length (schroederIntegration impulseResponse) = length impulseResponse \<and>
         hd (backwardEnergy impulseResponse) = sum_list (map (\<lambda>x. x * x) impulseResponse) \<and>
         (\<forall>i < length impulseResponse.
            backwardEnergy impulseResponse ! i =
              sum_list (map (\<lambda>x. x * x) (drop i impulseResponse))) \<and>
         (\<forall>i j. i \<le> j \<and> j < length impulseResponse \<longrightarrow>
            backwardEnergy impulseResponse ! j \<le> backwardEnergy impulseResponse ! i) \<and>
         (0 < hd (backwardEnergy impulseResponse) \<longrightarrow>
            (\<forall>i < length impulseResponse.
               schroederIntegration impulseResponse ! i =
                 (if backwardEnergy impulseResponse ! i = 0 then NegInf
                  else Fin (10 * log 10 (backwardEnergy impulseResponse ! i /
                                         hd (backwardEnergy impulseResponse))))) \<and>
            schroederIntegration impulseResponse ! 0 = Fin 0 \<and>
            (\<forall>v \<in> set (schroederIntegration impulseResponse). js_le v 0)) \<and>
         (hd (backwardEnergy impulseResponse) \<le> 0 \<longrightarrow>
            schroederIntegration impulseResponse = map Fin (backwardEnergy impulseResponse) \<and>
            schroederIntegration impulseResponse = replicate (length impulseResponse) (Fin 0))"
proof -
  let ?E = "backwardEnergy impulseResponse"
  let ?m = "hd ?E"
  from assms have ne: "?E \<noteq> []"
    by (simp add: backwardEnergy_Nil_iff)
  have len: "length (schroederIntegration impulseResponse) = length impulseResponse"
    by (simp add: schroederIntegration_def Let_def length_backwardEnergy backwardEnergy_Nil_iff)
  have total: "?m = sum_list (map (\<lambda>x. x * x) impulseResponse)"
    using assms by (rule hd_backwardEnergy)
  have sums: "\<forall>i < length impulseResponse.
      ?E ! i = sum_list (map (\<lambda>x. x * x) (drop i impulseResponse))"
    by (simp add: backwardEnergy_nth)
  have mono: "\<forall>i j. i \<le> j \<and> j < length impulseResponse \<longrightarrow> ?E ! j \<le> ?E ! i"
  proof (intro allI impI)
    fix i j assume ij: "i \<le> j \<and> j < length impulseResponse"
    show "?E ! j \<le> ?E ! i"
    proof (cases "i = j")
      case True
      then show ?thesis by simp
    next
      case False
      with ij have "i < j" "j < length ?E" by (simp_all add: length_backwardEnergy)
      with backwardEnergy_decreasing [of impulseResponse] show ?thesis
        by (simp add: sorted_wrt_iff_nth_less)
    qed
  qed
  have positive: "(\<forall>i < length impulseResponse.
               schroederIntegration impulseResponse ! i =
                 (if ?E ! i = 0 then NegInf else Fin (10 * log 10 (?E ! i / ?m)))) \<and>
            schroederIntegration impulseResponse ! 0 = Fin 0 \<and>
            (\<forall>v \<in> set (schroederIntegration impulseResponse). js_le v 0)" if pos: "0 < ?m"
  proof -
    from pos have tpos: "0 < sum_list (map (\<lambda>x. x * x) impulseResponse)"
      by (simp only: total)
    have curve_at: "\<forall>i < length impulseResponse.
        schroederIntegration impulseResponse ! i =
          (if ?E ! i = 0 then NegInf else Fin (10 * log 10 (?E ! i / ?m)))"
      using schroederIntegration_nth [OF _ tpos] by (simp add: backwardEnergy_nth total)
    from pos ne have curve: "schroederIntegration impulseResponse =
        map (\<lambda>e. js_scale 10 (Math_log10 (e / ?m))) ?E"
      by (simp add: schroederIntegration_def Let_def)
    from ne have "?E ! 0 = ?m" by (simp add: hd_conv_nth)
    with pos ne have first: "schroederIntegration impulseResponse ! 0 = Fin 0"
      unfolding curve by (simp add: Math_log10_def)
    have "js_le v 0" if "v \<in> set (schroederIntegration impulseResponse)" for v
    proof -
      from that obtain e where e: "e \<in> set ?E" and v: "v = js_scale 10 (Math_log10 (e / ?m))"
        unfolding curve by auto
      from backwardEnergy_bounds [OF e] total have "0 \<le> e" "e \<le> ?m" by simp_all
      then show ?thesis unfolding v using pos by (rule decibel_nonpos)
    qed
    with curve_at first show ?thesis by blast
  qed
  have degenerate: "schroederIntegration impulseResponse = map Fin ?E \<and>
            schroederIntegration impulseResponse = replicate (length impulseResponse) (Fin 0)"
    if nonpos: "?m \<le> 0"
    using assms nonpos by (rule schroederIntegration_silent)
  from len total sums mono positive degenerate show ?thesis by blast
qed

text \<open>The response \<open>[1, 1/4, 0]\<close> has positive energy, the response \<open>[0, 0]\<close> has none.\<close>

theorem schroederIntegration_curve_witness:
  "[1, 1 / 4, 0] \<noteq> ([]::real list) \<and>
   backwardEnergy [1, 1 / 4, 0] = [17 / 16, 1 / 16, 0] \<and>
   0 < hd (backwardEnergy [1, 1 / 4, 0]) \<and>
   schroederIntegration [1, 1 / 4, 0] ! 0 = Fin 0 \<and>
   schroederIntegration [1, 1 / 4, 0] ! 1 = Fin (10 * log 10 (1 / 17)) \<and>
   schroederIntegration [1, 1 / 4, 0] ! 2 = NegInf \<and>
   js_le (schroederIntegration [1, 1 / 4, 0] ! 1) 0 \<and>
   [0, 0] \<noteq> ([]::real list) \<and>
   hd (backwardEnergy [0, 0]) \<le> 0 \<and>
   schroederIntegration [0, 0] = [Fin 0, Fin 0]"
proof -
  have e: "backwardEnergy [1, 1 / 4, 0] = [17 / 16, 1 / 16, 0]"
    by (simp add: Let_def)
  have ne: "[1, 1 / 4, 0] \<noteq> ([]::real list)" by simp
  have pos: "0 < hd (backwardEnergy [1, 1 / 4, 0])" by (simp add: e)
  have z: "hd (backwardEnergy [0, 0]) \<le> 0" by (simp add: Let_def)
  have ne0: "[0, 0] \<noteq> ([]::real list)" by simp
  from schroederIntegration_curve [OF ne] pos
  have v: "\<forall>i < length [1, 1 / 4, 0 :: real]. schroederIntegration [1, 1 / 4, 0] ! i =
        (if backwardEnergy [1, 1 / 4, 0] ! i = 0 then NegInf
         else Fin (10 * log 10 (backwardEnergy [1, 1 / 4, 0] ! i / hd (backwardEnergy [1, 1 / 4, 0]))))"
    and a: "schroederIntegration [1, 1 / 4, 0] ! 0 = Fin 0"
    and b: "\<forall>v \<in> set (schroederIntegration [1, 1 / 4, 0]). js_le v 0"
    by blast+
  from v have v1: "schroederIntegration [1, 1 / 4, 0] ! 1 = Fin (10 * log 10 (1 / 17))"
    and v2: "schroederIntegration [1, 1 / 4, 0] ! 2 = NegInf"
    unfolding e by simp_all
  have "length (schroederIntegration [1, 1 / 4, 0]) = 3"
    using schroederIntegration_curve [OF ne] by simp
  with b have c: "js_le (schroederIntegration [1, 1 / 4, 0] ! 1) 0"
    by simp
  from schroederIntegration_curve [OF ne0] z
  have "schroederIntegration [0, 0] = replicate (length [0::real, 0]) (Fin 0)"
    by blast
  then have d: "schroederIntegration [0, 0] = [Fin 0, Fin 0]"
    by (simp add: numeral_2_eq_2)
  from ne e pos a v1 v2 c ne0 z d show ?thesis by (intro conjI)
qed


text \<open>
  Claim C7. When the decay curve of an impulse response has a value at or below -25 dB,
  appending any number of zero samples to the response leaves \<open>computeRT60\<close> unchanged.
\<close>

theorem computeRT60_silence_padding:
  assumes "\<exists>v \<in> set (schroederIntegration impulseResponse). js_le v (-25)"
  shows "computeRT60 (impulseResponse @ replicate k 0) sampleRate =
         computeRT60 impulseResponse sampleRate"
proof -
  let ?c = "schroederIntegration impulseResponse"
  from crossing_positive [OF assms]
  have pad: "schroederIntegration (impulseResponse @ replicate k 0) = ?c @ replicate k NegInf"
    by (simp add: schroederIntegration_padded)
  from assms have c25: "\<exists>v \<in> set ?c. js_le v (-25)" .
  then obtain v where v: "v \<in> set ?c" "js_le v (-25)"
    by blast
  from v(2) have "js_le v (-10)" "js_le v (-5)"
    by (rule js_le_mono, simp)+
  with v(1) have c10: "\<exists>v \<in> set ?c. js_le v (-10)" and c5: "\<exists>v \<in> set ?c. js_le v (-5)"
    by blast+
  show ?thesis
    unfolding computeRT60_def estimateRT60_def pad
    by (simp only: firstIndex_append [OF c25] firstIndex_append [OF c10] firstIndex_append [OF c5])
qed


text \<open>
  The response \<open>[1, 1/4, 0]\<close> crosses -5 dB at index 1 and -25 dB at index 2; at 44.1 kHz
  the estimate is 3 / 44100 s, with or without two more zero samples.
\<close>

theorem computeRT60_silence_padding_witness:
  "NegInf \<in> set (schroederIntegration [1, 1 / 4, 0]) \<and> js_le NegInf (-25) \<and>
   computeRT60 [1, 1 / 4, 0] 44100 = 3 / 44100 \<and>
   computeRT60 [1, 1 / 4, 0, 0, 0] 44100 = 3 / 44100"
proof -
  have mem: "NegInf \<in> set (schroederIntegration [1, 1 / 4, 0])"
    by (simp add: decay_example)
  then have hyp: "\<exists>v \<in> set (schroederIntegration [1, 1 / 4, 0]). js_le v (-25)"
    by (rule bexI [rotated]) simp
  have plain: "computeRT60 [1, 1 / 4, 0] 44100 = 3 / 44100"
    using log10_seventeenth
    by (simp add: computeRT60_def estimateRT60_def decay_example)
  from computeRT60_silence_padding [OF hyp, of 2 44100]
  have "computeRT60 [1, 1 / 4, 0, 0, 0] 44100 = computeRT60 [1, 1 / 4, 0] 44100"
    by (simp add: numeral_2_eq_2)
  with mem plain show ?thesis by simp
qed

section \<open>Properties of the compatibility scorer\<close>

lemma Math_round_mono: "x \<le> y \<Longrightarrow> Math_round x \<le> Math_round y"
  by (simp add: Math_round_def floor_mono)


subsection \<open>Order and non-negative numbers\<close>









subsection \<open>The operations are monotone on non-negative numbers\<close>













subsection \<open>Headroom, its average and the activated bands\<close>

text \<open>An input whose band levels and noise levels are all finite.\<close>

lemma headroom_finite:
  assumes "instrumentCentres input key = Fin x" "noiseLevel (noiseFloorBands input) key = Fin n"
  shows "headroom fl input key = fl (x - n)"
  using assms by (simp add: headroom_def)







subsection \<open>The three components and their sum\<close>







subsection \<open>The claim\<close>


text \<open>
  A band at minus infinity in the recording and in the noise floor has the headroom NaN,
  and the score is NaN.
\<close>

lemma score_of_silent_band: "computeCompatibilityScore Fin silentInput = NaN"
  by code_simp







section \<open>Properties of the spectral band mapper\<close>

lemma band_table:
  "map (\<lambda>k. (bandLow k, bandHigh k)) CENTRE_ORDER =
     [(32, 128), (128, 256), (256, 384), (384, 512), (512, 768), (768, 1024), (1024, 4000)]"
  by (simp add: CENTRE_ORDER_def bandLow_def bandHigh_def ENERGY_BANDS_def)

lemma bands_ordered:
  "k \<noteq> k' \<Longrightarrow> bandHigh k \<le> bandLow k' \<or> bandHigh k' \<le> bandLow k"
  by (cases k; cases k'; simp add: bandLow_def bandHigh_def ENERGY_BANDS_def)

lemma frequencyToBin_mono:
  assumes "0 < sampleRate" "0 \<le> fftSize" "f \<le> g"
  shows "frequencyToBin f sampleRate fftSize \<le> frequencyToBin g sampleRate fftSize"
proof -
  from assms(2,3) have "f * fftSize \<le> g * fftSize"
    by (rule mult_right_mono [rotated])
  with assms(1) have "(f * fftSize) / sampleRate \<le> (g * fftSize) / sampleRate"
    by (simp add: divide_right_mono)
  then show ?thesis
    unfolding frequencyToBin_def by (rule Math_round_mono)
qed

lemma centreBins_iff:
  "i \<in> set (centreBins len k sampleRate fftSize) \<longleftrightarrow>
     frequencyToBin (bandLow k) sampleRate fftSize \<le> i \<and>
     i \<le> frequencyToBin (bandHigh k) sampleRate fftSize \<and> i < int len"
  by (auto simp: centreBins_def bandBins_def binLoop_def)

lemma frequencyToCentre_cases:
  "frequencyToCentre hz = Some k \<Longrightarrow>
     (bandLow k \<le> hz \<and> hz < bandHigh k) \<or> (k = crown \<and> 4000 \<le> hz)"
  by (auto simp: frequencyToCentre_def ENERGY_BANDS_def bandLow_def bandHigh_def
        split: if_splits)

lemma frequencyToCentre_crown: "1024 \<le> hz \<Longrightarrow> frequencyToCentre hz = Some crown"
  by (simp add: frequencyToCentre_def ENERGY_BANDS_def)

lemma default_bins:
  "frequencyToBin (bandLow root_key) 44100 8192 = 6"
  "frequencyToBin (bandHigh root_key) 44100 8192 = 24"
  "frequencyToBin (bandLow sacral) 44100 8192 = 24"
  "frequencyToBin (bandHigh sacral) 44100 8192 = 48"
  by code_simp+

text \<open>
  Claim C1, as the claim states it, fails: the loop of \<open>bandEnergy\<close> includes the upper
  bin, so at an FFT size of 8192 and 44.1 kHz bin 24 (the rounded position of 128 Hz) is
  averaged into the root band, bins 6 to 24, and into the sacral band, bins 24 to 48.
\<close>

theorem centreBins_counterexample:
  "24 \<in> set (centreBins 4096 root_key 44100 8192) \<and>
   24 \<in> set (centreBins 4096 sacral 44100 8192)"
  by (simp add: centreBins_iff default_bins)

text \<open>
  Claim C1, amended. The bands are those of the literal table. For a positive sample rate
  and a non-negative FFT size, the bins of a band are the bins of the spectrum from its
  rounded lower frequency to its rounded upper frequency, both included, and a bin
  strictly between these two belongs to no other band: bands share boundary bins only.
  A frequency lies in at most one band of the table, \<open>frequencyToCentre\<close> returns crown
  from 1024 Hz up, and whatever it returns is the band holding the frequency, or crown at
  4000 Hz and above.
\<close>

theorem centreBins_shared_only_at_boundaries:
  assumes "0 < sampleRate" and "0 \<le> fftSize"
  shows "map (\<lambda>k. (bandLow k, bandHigh k)) CENTRE_ORDER =
           [(32, 128), (128, 256), (256, 384), (384, 512), (512, 768), (768, 1024), (1024, 4000)] \<and>
         (i \<in> set (centreBins len k sampleRate fftSize) \<longleftrightarrow>
            frequencyToBin (bandLow k) sampleRate fftSize \<le> i \<and>
            i \<le> frequencyToBin (bandHigh k) sampleRate fftSize \<and> i < int len) \<and>
         (k \<noteq> k' \<and> frequencyToBin (bandLow k) sampleRate fftSize < i \<and>
            i < frequencyToBin (bandHigh k) sampleRate fftSize
            \<longrightarrow> i \<notin> set (centreBins len k' sampleRate fftSize)) \<and>
         (bandLow k \<le> hz \<and> hz < bandHigh k \<and> bandLow k' \<le> hz \<and> hz < bandHigh k'
            \<longrightarrow> k = k') \<and>
         (1024 \<le> hz \<longrightarrow> frequencyToCentre hz = Some crown) \<and>
         (frequencyToCentre hz = Some k
            \<longrightarrow> (bandLow k \<le> hz \<and> hz < bandHigh k) \<or> (k = crown \<and> 4000 \<le> hz))"
proof -
  have inner: "i \<notin> set (centreBins len k' sampleRate fftSize)"
    if "k \<noteq> k' \<and> frequencyToBin (bandLow k) sampleRate fftSize < i \<and>
        i < frequencyToBin (bandHigh k) sampleRate fftSize"
  proof -
    from that bands_ordered [of k k']
    consider "bandHigh k \<le> bandLow k'" | "bandHigh k' \<le> bandLow k" by blast
    then show ?thesis
    proof cases
      case 1
      from frequencyToBin_mono [OF assms 1] that
      have "i < frequencyToBin (bandLow k') sampleRate fftSize" by linarith
      then show ?thesis by (simp add: centreBins_iff)
    next
      case 2
      from frequencyToBin_mono [OF assms 2] that
      have "frequencyToBin (bandHigh k') sampleRate fftSize < i" by linarith
      then show ?thesis by (simp add: centreBins_iff)
    qed
  qed
  have unique: "k = k'"
    if "bandLow k \<le> hz \<and> hz < bandHigh k \<and> bandLow k' \<le> hz \<and> hz < bandHigh k'"
  proof (rule ccontr)
    assume "k \<noteq> k'"
    from bands_ordered [OF this] that show False by linarith
  qed
  from band_table centreBins_iff [of i len k sampleRate fftSize] inner unique
    frequencyToCentre_crown [of hz] frequencyToCentre_cases [of hz k]
  show ?thesis by blast
qed

theorem centreBins_shared_only_at_boundaries_witness:
  "(0::real) < 44100 \<and> (0::real) \<le> 8192 \<and>
   frequencyToBin (bandLow root_key) 44100 8192 = 6 \<and>
   frequencyToBin (bandHigh root_key) 44100 8192 = 24 \<and>
   10 \<in> set (centreBins 4096 root_key 44100 8192) \<and>
   10 \<notin> set (centreBins 4096 sacral 44100 8192) \<and>
   bandLow root_key \<le> 100 \<and> 100 < bandHigh root_key \<and>
   frequencyToCentre 100 = Some root_key \<and>
   frequencyToCentre 5000 = Some crown"
proof -
  have sr: "(0::real) < 44100" and fft: "(0::real) \<le> 8192" by simp_all
  note t = centreBins_shared_only_at_boundaries [OF sr fft]
  from t [of 10 4096 root_key sacral 100]
  have a: "10 \<in> set (centreBins 4096 root_key 44100 8192)"
    and b: "10 \<notin> set (centreBins 4096 sacral 44100 8192)"
    by (simp_all add: default_bins)
  from t [of 10 4096 root_key sacral 5000]
  have c: "frequencyToCentre 5000 = Some crown"
    by simp
  have d: "frequencyToCentre 100 = Some root_key"
    by (simp add: frequencyToCentre_def ENERGY_BANDS_def)
  have e: "bandLow root_key \<le> 100 \<and> 100 < bandHigh root_key"
    by (simp add: bandLow_def bandHigh_def ENERGY_BANDS_def)
  from sr fft default_bins(1,2) a b e d c show ?thesis by blast
qed

section \<open>Properties of the frequency to note converter\<close>

lemma js_mod12: "((m smod 12) + 12) smod 12 = m mod (12::int)"
proof (cases "0 \<le> m")
  case True
  then have "m smod 12 = m mod 12"
    by (simp add: signed_modulo_int_def sgn_if)
  moreover have "0 \<le> m mod 12 + 12" by simp
  then have "(m mod 12 + 12) smod 12 = (m mod 12 + 12) mod 12"
    by (simp add: signed_modulo_int_def sgn_if)
  ultimately show ?thesis by simp
next
  case False
  then have neg: "m < 0" by simp
  let ?r = "(- m) mod 12"
  from neg have s: "m smod 12 = - ?r"
    by (simp add: signed_modulo_int_def sgn_if)
  have "?r < 12" by simp
  then have pos: "0 < - ?r + 12" by linarith
  then have "(- ?r + 12) smod 12 = (- ?r + 12) mod 12"
    by (simp add: signed_modulo_int_def sgn_if)
  also have "\<dots> = (- ?r) mod 12" by simp
  also have "\<dots> = (- (- m)) mod 12" by (simp only: mod_minus_eq)
  finally show ?thesis by (simp add: s)
qed

lemma floor_div12: "\<lfloor>real_of_int m / 12\<rfloor> = m div 12"
  using floor_divide_of_int_eq [of m 12] by simp

lemma note_index:
  assumes "i < 12"
  shows "firstIndex (\<lambda>n. n = NOTE_NAMES ! i) NOTE_NAMES 0 = int i"
proof -
  from assms have "i = 0 \<or> i = 1 \<or> i = 2 \<or> i = 3 \<or> i = 4 \<or> i = 5 \<or> i = 6 \<or> i = 7 \<or>
      i = 8 \<or> i = 9 \<or> i = 10 \<or> i = 11"
    by arith
  then show ?thesis
    by (elim disjE; simp add: NOTE_NAMES_def)
qed


lemma noteToFrequency_of_midi:
  "noteToFrequency (NOTE_NAMES ! nat (m mod 12)) (m div 12 - 1) =
     440 * 2 powr (real_of_int (m - 69) / 12)"
proof -
  have "nat (m mod 12) < 12" by simp
  then have "firstIndex (\<lambda>n. n = NOTE_NAMES ! nat (m mod 12)) NOTE_NAMES 0 = int (nat (m mod 12))"
    by (rule note_index)
  then have idx: "firstIndex (\<lambda>n. n = NOTE_NAMES ! nat (m mod 12)) NOTE_NAMES 0 = m mod 12"
    by simp
  have "0 \<le> m mod 12" by simp
  then have "m mod 12 \<noteq> -1" by linarith
  moreover have "(m div 12 - 1 + 1) * 12 + m mod 12 = m" by simp
  ultimately show ?thesis
    unfolding noteToFrequency_def Let_def idx by simp
qed

subsection \<open>The note A sharp 4\<close>

lemma twelfth_root_power: "(2 powr (1 / 12)) ^ 12 = (2::real)"
proof -
  have "(2 powr (1 / 12)) ^ 12 = (2::real) powr ((1 / 12) * 12)"
    by (simp only: powr_powr flip: powr_numeral [OF powr_ge_zero])
  then show ?thesis by simp
qed

lemma twelfth_root_lower:
  assumes "a ^ 12 \<le> 2"
  shows "a \<le> (2::real) powr (1 / 12)"
proof (rule ccontr)
  assume "\<not> a \<le> 2 powr (1 / 12)"
  then have "2 powr (1 / 12) < a" by simp
  then have "(2 powr (1 / 12)) ^ 12 < a ^ 12"
    by (rule power_strict_mono) simp_all
  with assms show False
    by (simp only: twelfth_root_power)
qed

lemma twelfth_root_upper:
  assumes "0 \<le> b" "2 < b ^ 12"
  shows "(2::real) powr (1 / 12) < b"
proof (rule ccontr)
  assume "\<not> 2 powr (1 / 12) < b"
  then have "b \<le> 2 powr (1 / 12)" by simp
  with assms(1) have "b ^ 12 \<le> (2 powr (1 / 12)) ^ 12"
    by (intro power_mono)
  with assms(2) show False
    by (simp only: twelfth_root_power)
qed

lemma half_cent_below: "(2::real) powr (-1 / 200) \<le> 1999 / 2000"
proof -
  have "1 + real 200 * (-1 / 2000) \<le> (1 + (-1 / 2000 :: real)) ^ 200"
    by (rule Bernoulli_inequality) simp
  then have "(1 / 2 :: real) \<le> (1999 / 2000) ^ 200"
    by simp
  then have "(1 / 2 :: real) powr (1 / 200) \<le> ((1999 / 2000) ^ 200) powr (1 / 200)"
    by (intro powr_mono2) simp_all
  moreover have "((1999 / 2000 :: real) ^ 200) powr (1 / 200) = 1999 / 2000"
    by (simp add: powr_powr flip: powr_numeral)
  moreover have "(1 / 2 :: real) powr (1 / 200) = 2 powr (-1 / 200)"
  proof -
    have "(1 / 2 :: real) = 2 powr (-1)" by (simp add: powr_minus_divide)
    then show ?thesis by (simp only: powr_powr) simp
  qed
  ultimately show ?thesis by simp
qed

lemma a_sharp_semitones:
  "199 / 200 \<le> 12 * log 2 ((11654 / 25) / 440) \<and> 12 * log 2 ((11654 / 25) / 440) < (1::real)"
proof -
  let ?x = "5827 / 5500 :: real"
  have x: "(11654 / 25) / 440 = ?x" by simp
  have s: "12 * log 2 ?x = log 2 (?x ^ 12)"
    by (simp add: log_nat_power)
  have "?x ^ 12 < 2" by code_simp
  then have "log 2 (?x ^ 12) < log 2 2"
    by (subst log_less_cancel_iff) simp_all
  then have upper: "log 2 (?x ^ 12) < 1" by simp
  have "(199 / 200 :: real) = 1 + (-1 / 200)" by simp
  then have "(2::real) powr (199 / 200) = 2 powr 1 * 2 powr (-1 / 200)"
    by (simp only: powr_add)
  also have "\<dots> \<le> 2 * (1999 / 2000)"
    using half_cent_below by simp
  also have "\<dots> \<le> ?x ^ 12" by code_simp
  finally have "log 2 (2 powr (199 / 200)) \<le> log 2 (?x ^ 12)"
    by (subst log_le_cancel_iff) simp_all
  then have lower: "199 / 200 \<le> log 2 (?x ^ 12)" by simp
  from lower upper show ?thesis unfolding x s by simp
qed


lemma a_sharp_rounding: "Math_round (440 * 2 powr (1 / 12) * 100) = 46616"
proof -
  have "(93231 / 88000 :: real) ^ 12 \<le> 2" by code_simp
  then have lo: "93231 / 88000 \<le> (2::real) powr (1 / 12)"
    by (rule twelfth_root_lower)
  have "2 < (93233 / 88000 :: real) ^ 12" by code_simp
  then have hi: "(2::real) powr (1 / 12) < 93233 / 88000"
    by (intro twelfth_root_upper) simp_all
  from lo hi show ?thesis
    unfolding Math_round_def by (intro floor_unique) simp_all
qed

lemma a_sharp_note:
  "frequencyToNote (11654 / 25) =
     Some \<lparr>name = ''A#4'', noteName = ''A#'', octave = 4, exactFrequency = 11654 / 25,
            cents = 0\<rparr>"
proof -
  let ?s = "12 * log 2 ((11654 / 25) / 440) :: real"
  from a_sharp_semitones have rs: "Math_round ?s = 1"
    unfolding Math_round_def by (intro floor_unique) simp_all
  from a_sharp_semitones have ct: "Math_round ((?s - 1) * 100) = 0"
    unfolding Math_round_def by (intro floor_unique) simp_all
  have idx: "(70 smod 12 + 12) smod 12 = (10::int)"
    by (simp add: js_mod12)
  have nm: "NOTE_NAMES ! nat 10 = ''A#''"
    by (simp add: NOTE_NAMES_def)
  have shown: "showInt 4 = ''4''"
    by (simp add: showInt_def showNat.simps)
  from rs ct idx nm shown a_sharp_rounding show ?thesis
    by (simp add: frequencyToNote_def Let_def)
qed

subsection \<open>The round trip\<close>

text \<open>
  Claim C3, as the claim states it, fails: for 466.16 Hz \<open>frequencyToNote\<close> returns A#4
  with 0 cents and the two-decimal \<open>exactFrequency\<close> 466.16, while \<open>noteToFrequency\<close>
  returns the unrounded \<open>440 * 2 powr (1 / 12)\<close>, which is not 466.16.
\<close>

theorem note_round_trip_counterexample:
  "frequencyToNote (11654 / 25) =
     Some \<lparr>name = ''A#4'', noteName = ''A#'', octave = 4, exactFrequency = 11654 / 25,
            cents = 0\<rparr> \<and>
   noteToFrequency ''A#'' 4 \<noteq> 11654 / 25"
proof -
  have "(5827 / 5500 :: real) ^ 12 < 2" by code_simp
  then have "(5827 / 5500 :: real) ^ 12 \<noteq> (2 powr (1 / 12)) ^ 12"
    by (simp only: twelfth_root_power)
  then have "(2::real) powr (1 / 12) \<noteq> 5827 / 5500"
    by (rule contrapos_nn) (simp only:)
  moreover have "noteToFrequency ''A#'' 4 = 440 * 2 powr (1 / 12)"
    by (simp add: noteToFrequency_def NOTE_NAMES_def)
  ultimately have "noteToFrequency ''A#'' 4 \<noteq> 11654 / 25"
    by simp
  with a_sharp_note show ?thesis by simp
qed

text \<open>
  Claim C3, amended. For every positive frequency (whatever the cents), \<open>noteToFrequency\<close>
  on the returned note name and octave gives the unrounded frequency of the nearest note,
  and \<open>exactFrequency\<close> is that frequency rounded to two decimals.
\<close>

theorem note_round_trip:
  assumes "0 < hz" and "frequencyToNote hz = Some n"
  shows "noteToFrequency (noteName n) (octave n) =
           440 * 2 powr (real_of_int (Math_round (12 * log 2 (hz / 440))) / 12) \<and>
         exactFrequency n =
           real_of_int (Math_round (noteToFrequency (noteName n) (octave n) * 100)) / 100"
proof -
  let ?rs = "Math_round (12 * log 2 (hz / 440))"
  let ?midi = "69 + ?rs"
  from assms have n: "noteName n = NOTE_NAMES ! nat (?midi mod 12)"
    "octave n = ?midi div 12 - 1"
    "exactFrequency n = real_of_int (Math_round (440 * 2 powr (real_of_int ?rs / 12) * 100)) / 100"
    by (auto simp add: frequencyToNote_def Let_def js_mod12 floor_div12)
  have "noteToFrequency (noteName n) (octave n) = 440 * 2 powr (real_of_int (?midi - 69) / 12)"
    unfolding n by (rule noteToFrequency_of_midi)
  then have recovered: "noteToFrequency (noteName n) (octave n) = 440 * 2 powr (real_of_int ?rs / 12)"
    by simp
  show ?thesis
    unfolding recovered n(3) by simp
qed

theorem note_round_trip_witness:
  "(0::real) < 11654 / 25 \<and>
   frequencyToNote (11654 / 25) =
     Some \<lparr>name = ''A#4'', noteName = ''A#'', octave = 4, exactFrequency = 11654 / 25,
            cents = 0\<rparr> \<and>
   noteToFrequency ''A#'' 4 = 440 * 2 powr (1 / 12) \<and>
   real_of_int (Math_round (noteToFrequency ''A#'' 4 * 100)) / 100 = 11654 / 25"
proof -
  have pos: "(0::real) < 11654 / 25" by simp
  from note_round_trip [OF pos a_sharp_note, THEN conjunct2]
  have "real_of_int (Math_round (noteToFrequency ''A#'' 4 * 100)) / 100 = 11654 / 25"
    by simp
  moreover have "noteToFrequency ''A#'' 4 = 440 * 2 powr (1 / 12)"
    by (simp add: noteToFrequency_def NOTE_NAMES_def)
  ultimately show ?thesis using pos a_sharp_note by simp
qed

section \<open>Properties of the overtone detector\<close>

text \<open>
  The confidence is the number of accepted peaks divided by the smaller of the number of
  peaks and 10, and 0 without peaks. Up to 16 peaks are tested, so the quotient can reach
  16 / 10.
\<close>

lemma length_map_filter_le: "length (List.map_filter f xs) \<le> length xs"
proof -
  have "length (filter (\<lambda>x. f x \<noteq> None) xs) \<le> length xs"
    by (rule length_filter_le)
  then show ?thesis
    by (simp add: List.map_filter_def)
qed

lemma detectOvertones_confidence_formula:
  "confidence (detectOvertones magnitudeSpectrum sampleRate fftSize) =
     (if findSpectralPeaks magnitudeSpectrum sampleRate fftSize (-60) 5 = [] then 0
      else real (length (harmonics (detectOvertones magnitudeSpectrum sampleRate fftSize))) /
           real (min (length (findSpectralPeaks magnitudeSpectrum sampleRate fftSize (-60) 5)) 10)) \<and>
   0 \<le> confidence (detectOvertones magnitudeSpectrum sampleRate fftSize) \<and>
   confidence (detectOvertones magnitudeSpectrum sampleRate fftSize) \<le> 16 / 10"
proof -
  let ?peaks = "findSpectralPeaks magnitudeSpectrum sampleRate fftSize (-60) 5"
  let ?r = "detectOvertones magnitudeSpectrum sampleRate fftSize"
  have formula: "confidence ?r =
     (if ?peaks = [] then 0 else real (length (harmonics ?r)) / real (min (length ?peaks) 10))"
    by (simp add: detectOvertones_def Let_def)
  have "harmonics ?r = List.map_filter
      (classifyPeak (harmonicProductSpectrum magnitudeSpectrum sampleRate fftSize 5))
      (take 16 ?peaks)"
    by (simp add: detectOvertones_def Let_def)
  then have "length (harmonics ?r) \<le> length (take 16 ?peaks)"
    by (simp only: length_map_filter_le)
  then have m: "length (harmonics ?r) \<le> min (length ?peaks) 16"
    by simp
  have "real (length (harmonics ?r)) / real (min (length ?peaks) 10) \<le> 16 / 10"
    if ne: "?peaks \<noteq> []"
  proof (cases "length ?peaks \<le> 10")
    case True
    with m have "real (length (harmonics ?r)) \<le> real (length ?peaks)" by simp
    moreover from ne have "0 < real (length ?peaks)" by simp
    ultimately have "real (length (harmonics ?r)) / real (length ?peaks) \<le> 1"
      by simp
    moreover from True have "min (length ?peaks) 10 = length ?peaks" by simp
    ultimately have "real (length (harmonics ?r)) / real (min (length ?peaks) 10) \<le> 1"
      by (simp only:)
    also have "(1::real) \<le> 16 / 10" by simp
    finally show ?thesis .
  next
    case False
    with m have "real (length (harmonics ?r)) \<le> 16" by simp
    then have "real (length (harmonics ?r)) / 10 \<le> 16 / 10"
      by (rule divide_right_mono) simp
    moreover from False have "real (min (length ?peaks) 10) = 10" by simp
    ultimately show ?thesis by (simp only:)
  qed
  with formula show ?thesis by simp
qed


subsection \<open>A spectrum with eleven harmonic peaks\<close>

lemma spectrum_length: "length harmonicSpectrum = 128"
  by (simp add: harmonicSpectrum_def)

lemma spectrum_linear:
  assumes "k < 128"
  shows "10 powr (harmonicSpectrum ! k / 20) =
           (if k mod 5 = 0 \<and> 5 \<le> k \<and> k \<le> 55 then 1 else 1 / 10 ^ 5)"
proof -
  have "(10::real) powr (- 5) = 1 / 10 ^ 5"
    by (simp add: powr_minus_divide flip: powr_numeral)
  with assms show ?thesis
    by (simp add: harmonicSpectrum_def)
qed

lemma hps_values:
  "hpsValue harmonicSpectrum 5 1 = 1 / 10 ^ 20"
  "hpsValue harmonicSpectrum 5 2 = 1 / 10 ^ 20"
  "hpsValue harmonicSpectrum 5 3 = 1 / 10 ^ 20"
  "hpsValue harmonicSpectrum 5 4 = 1 / 10 ^ 20"
  "hpsValue harmonicSpectrum 5 5 = 1"
  "hpsValue harmonicSpectrum 5 6 = 1 / 10 ^ 20"
  "hpsValue harmonicSpectrum 5 7 = 1 / 10 ^ 20"
  "hpsValue harmonicSpectrum 5 8 = 1 / 10 ^ 20"
  "hpsValue harmonicSpectrum 5 9 = 1 / 10 ^ 20"
  "hpsValue harmonicSpectrum 5 10 = 1"
  "hpsValue harmonicSpectrum 5 11 = 1 / 10 ^ 20"
  "hpsValue harmonicSpectrum 5 12 = 1 / 10 ^ 25"
  "hpsValue harmonicSpectrum 5 13 = 1 / 10 ^ 25"
  "hpsValue harmonicSpectrum 5 14 = 1 / 10 ^ 25"
  "hpsValue harmonicSpectrum 5 15 = 1 / 10 ^ 10"
  "hpsValue harmonicSpectrum 5 16 = 1 / 10 ^ 25"
  "hpsValue harmonicSpectrum 5 17 = 1 / 10 ^ 25"
  "hpsValue harmonicSpectrum 5 18 = 1 / 10 ^ 25"
  "hpsValue harmonicSpectrum 5 19 = 1 / 10 ^ 25"
  "hpsValue harmonicSpectrum 5 20 = 1 / 10 ^ 15"
  "hpsValue harmonicSpectrum 5 21 = 1 / 10 ^ 25"
  "hpsValue harmonicSpectrum 5 22 = 1 / 10 ^ 25"
  "hpsValue harmonicSpectrum 5 23 = 1 / 10 ^ 25"
  "hpsValue harmonicSpectrum 5 24 = 1 / 10 ^ 25"
  by (simp_all add: hpsValue_def spectrum_length spectrum_linear upt_rec_numeral)


lemma spectrum_minBin: "\<lceil>(20 * 256) / (44100::real)\<rceil> = 1"
  by (rule ceiling_unique) simp_all

lemma spectrum_fundamental:
  "harmonicProductSpectrum harmonicSpectrum 44100 256 5 = 55125 / 64"
proof -
  have first: "hpsValue harmonicSpectrum 5 (Suc 0) = 1 / 10 ^ 20"
    using hps_values(1) by simp
  show ?thesis
    by (simp add: harmonicProductSpectrum_def Let_def spectrum_length spectrum_minBin
          upto.simps [of 1 24] first hps_values)
qed

lemma spectrum_peaks:
  "findSpectralPeaks harmonicSpectrum 44100 256 (-60) 5 =
     [\<lparr>pk_bin = 5, pk_frequency = 220500 / 256, pk_amplitude = 0\<rparr>, \<lparr>pk_bin = 10, pk_frequency = 441000 / 256, pk_amplitude = 0\<rparr>, \<lparr>pk_bin = 15, pk_frequency = 661500 / 256, pk_amplitude = 0\<rparr>, \<lparr>pk_bin = 20, pk_frequency = 882000 / 256, pk_amplitude = 0\<rparr>, \<lparr>pk_bin = 25, pk_frequency = 1102500 / 256, pk_amplitude = 0\<rparr>, \<lparr>pk_bin = 30, pk_frequency = 1323000 / 256, pk_amplitude = 0\<rparr>, \<lparr>pk_bin = 35, pk_frequency = 1543500 / 256, pk_amplitude = 0\<rparr>, \<lparr>pk_bin = 40, pk_frequency = 1764000 / 256, pk_amplitude = 0\<rparr>, \<lparr>pk_bin = 45, pk_frequency = 1984500 / 256, pk_amplitude = 0\<rparr>, \<lparr>pk_bin = 50, pk_frequency = 2205000 / 256, pk_amplitude = 0\<rparr>, \<lparr>pk_bin = 55, pk_frequency = 2425500 / 256, pk_amplitude = 0\<rparr>]"
  by code_simp


lemma spectrum_matches:
  "length (List.map_filter (classifyPeak (55125 / 64))
     (take 16 (findSpectralPeaks harmonicSpectrum 44100 256 (-60) 5))) = 11"
  unfolding spectrum_peaks by code_simp

text \<open>
  Claim C2. The confidence is documented as a value between 0 and 1. On
  \<open>harmonicSpectrum\<close> at 44.1 kHz with an FFT size of 256 the detector finds eleven peaks,
  accepts all eleven as harmonics of the fundamental at bin 5, and divides by
  \<open>min 11 10 = 10\<close>: the confidence is 11 / 10.
\<close>

theorem detectOvertones_confidence_above_one:
  "length (findSpectralPeaks harmonicSpectrum 44100 256 (-60) 5) = 11 \<and>
   length (harmonics (detectOvertones harmonicSpectrum 44100 256)) = 11 \<and>
   confidence (detectOvertones harmonicSpectrum 44100 256) = 11 / 10"
proof -
  have n: "length (findSpectralPeaks harmonicSpectrum 44100 256 (-60) 5) = 11"
    unfolding spectrum_peaks by simp
  have ne: "findSpectralPeaks harmonicSpectrum 44100 256 (-60) 5 \<noteq> []"
    unfolding spectrum_peaks by simp
  from n ne spectrum_matches show ?thesis
    by (simp add: detectOvertones_def Let_def spectrum_fundamental)
qed

end
